theory Spec2Isabelle
  imports Complex_Main
begin

section \<open>Strings, as the scanner uses them\<close>

text \<open>
  Python strings are modelled as \<open>string\<close> over the ASCII alphabet: case folding and
  the character classes below act on ASCII letters, digits and white space only.
  Scores are Python floats in the source; here they are exact rationals, so that
  \<open>0.30\<close> is \<open>3/10\<close>.
\<close>

definition case_table :: "(char \<times> char) list" where
  "case_table = zip ''ABCDEFGHIJKLMNOPQRSTUVWXYZ'' ''abcdefghijklmnopqrstuvwxyz''"

definition lower_char :: "char \<Rightarrow> char" where
  "lower_char c = (case map_of case_table c of Some l \<Rightarrow> l | None \<Rightarrow> c)"

definition upper_char :: "char \<Rightarrow> char" where
  "upper_char c =
     (case map_of (map (\<lambda>(u, l). (l, u)) case_table) c of Some u \<Rightarrow> u | None \<Rightarrow> c)"

text \<open>\<open>s.lower()\<close>\<close>

definition lower :: "string \<Rightarrow> string" where
  "lower s = map lower_char s"

text \<open>\<open>s.startswith(p)\<close>, \<open>s.endswith(p)\<close> and \<open>sub in s\<close>\<close>

fun startswith :: "string \<Rightarrow> string \<Rightarrow> bool" where
  "startswith s [] = True"
| "startswith [] (p # ps) = False"
| "startswith (c # cs) (p # ps) = (c = p \<and> startswith cs ps)"

definition endswith :: "string \<Rightarrow> string \<Rightarrow> bool" where
  "endswith s p = startswith (rev s) (rev p)"

fun str_in :: "string \<Rightarrow> string \<Rightarrow> bool" where
  "str_in sub [] = (sub = [])"
| "str_in sub (c # cs) = (startswith (c # cs) sub \<or> str_in sub cs)"

text \<open>\<open>s.lstrip('.')\<close>\<close>

definition lstrip_dot :: "string \<Rightarrow> string" where
  "lstrip_dot s = dropWhile (\<lambda>c. c = CHR ''.'') s"

text \<open>
  \<open>Path(s).suffix\<close>: the path's final component is the last part between slashes
  that is neither empty nor a single dot; its suffix starts at the last dot, unless
  that dot is the first or the last character of the component.
\<close>

fun split_slash :: "string \<Rightarrow> string list" where
  "split_slash [] = [[]]"
| "split_slash (c # cs) =
     (if c = CHR ''/'' then [] # split_slash cs
      else (case split_slash cs of [] \<Rightarrow> [[c]] | p # ps \<Rightarrow> (c # p) # ps))"

definition path_name :: "string \<Rightarrow> string" where
  "path_name s =
     (case rev (filter (\<lambda>p. p \<noteq> [] \<and> p \<noteq> ''.'') (split_slash s)) of
        [] \<Rightarrow> []
      | p # _ \<Rightarrow> p)"

definition path_suffix :: "string \<Rightarrow> string" where
  "path_suffix s =
     (let name = path_name s;
          ext = rev (takeWhile (\<lambda>c. c \<noteq> CHR ''.'') (rev name))
      in if CHR ''.'' \<in> set name \<and> ext \<noteq> [] \<and> Suc (length ext) < length name
         then CHR ''.'' # ext else [])"

section \<open>Regular expressions of the classifier's tables\<close>

text \<open>
  The patterns of \<open>EmailClassifier\<close> are compiled with \<open>re.I\<close> and only ever used
  through \<open>search\<close>. They repeat single characters only, so the abstract syntax has
  repetition of a character class, and matching is structural recursion.
\<close>

datatype citem =
    Ch char            \<comment> \<open>a literal character, compared without case\<close>
  | Rg char char       \<comment> \<open>a range \<open>[a-z]\<close>\<close>
  | Dig                \<comment> \<open>\<open>\d\<close>\<close>
  | Spc                \<comment> \<open>\<open>\s\<close>\<close>
  | AnyC               \<comment> \<open>\<open>.\<close>: any character but a newline\<close>

datatype rx =
    Eps
  | One "citem list"   \<comment> \<open>one character of a class\<close>
  | Many "citem list"  \<comment> \<open>greedy \<open>*\<close> over a class\<close>
  | Bnd                \<comment> \<open>\<open>\b\<close>\<close>
  | Bol                \<comment> \<open>\<open>^\<close>\<close>
  | Seq rx rx
  | Alt rx rx
  | Opt rx

definition in_range :: "char \<Rightarrow> char \<Rightarrow> char \<Rightarrow> bool" where
  "in_range a b c = ((of_char a :: nat) \<le> of_char c \<and> (of_char c :: nat) \<le> of_char b)"

definition is_digit :: "char \<Rightarrow> bool" where
  "is_digit c = in_range CHR ''0'' CHR ''9'' c"

definition is_space :: "char \<Rightarrow> bool" where
  "is_space c = (c = CHR '' '' \<or> in_range (CHR 0x09) (CHR 0x0D) c \<or> in_range (CHR 0x1C) (CHR 0x1F) c)"

definition is_word :: "char \<Rightarrow> bool" where
  "is_word c = (in_range CHR ''a'' CHR ''z'' c \<or> in_range CHR ''A'' CHR ''Z'' c
                \<or> is_digit c \<or> c = CHR ''_'')"

fun citem_match :: "citem \<Rightarrow> char \<Rightarrow> bool" where
  "citem_match (Ch x) c = (lower_char c = lower_char x)"
| "citem_match (Rg a b) c = (in_range a b (lower_char c) \<or> in_range a b (upper_char c))"
| "citem_match Dig c = is_digit c"
| "citem_match Spc c = is_space c"
| "citem_match AnyC c = (c \<noteq> CHR 0x0A)"

definition class_match :: "citem list \<Rightarrow> char \<Rightarrow> bool" where
  "class_match cl c = list_ex (\<lambda>i. citem_match i c) cl"

text \<open>
  A matcher state is the character before the current position (none at the start of
  the text) and the rest of the text. \<open>rx_ends r st\<close> lists the states in which a match
  of \<open>r\<close> started at \<open>st\<close> can end, in the order in which a backtracking matcher tries
  them (left alternative first, longest repetition first).
\<close>

type_synonym mstate = "char option \<times> string"

definition at_boundary :: "mstate \<Rightarrow> bool" where
  "at_boundary st =
     ((case fst st of None \<Rightarrow> False | Some p \<Rightarrow> is_word p)
      \<noteq> (case snd st of [] \<Rightarrow> False | c # _ \<Rightarrow> is_word c))"

fun many_ends :: "citem list \<Rightarrow> char option \<Rightarrow> string \<Rightarrow> mstate list" where
  "many_ends cl p [] = [(p, [])]"
| "many_ends cl p (c # cs) =
     (if class_match cl c then many_ends cl (Some c) cs @ [(p, c # cs)] else [(p, c # cs)])"

fun rx_ends :: "rx \<Rightarrow> mstate \<Rightarrow> mstate list" where
  "rx_ends Eps st = [st]"
| "rx_ends (One cl) st =
     (case snd st of [] \<Rightarrow> [] | c # cs \<Rightarrow> if class_match cl c then [(Some c, cs)] else [])"
| "rx_ends (Many cl) st = many_ends cl (fst st) (snd st)"
| "rx_ends Bnd st = (if at_boundary st then [st] else [])"
| "rx_ends Bol st = (if fst st = None then [st] else [])"
| "rx_ends (Seq r1 r2) st = concat (map (rx_ends r2) (rx_ends r1 st))"
| "rx_ends (Alt r1 r2) st = rx_ends r1 st @ rx_ends r2 st"
| "rx_ends (Opt r) st = rx_ends r st @ [st]"

text \<open>\<open>re.search\<close>: the leftmost start that matches; the result is \<open>group(0)\<close>.\<close>

fun search_from :: "rx \<Rightarrow> char option \<Rightarrow> string \<Rightarrow> string option" where
  "search_from r p [] =
     (case rx_ends r (p, []) of [] \<Rightarrow> None | e # _ \<Rightarrow> Some [])"
| "search_from r p (c # cs) =
     (case rx_ends r (p, c # cs) of
        [] \<Rightarrow> search_from r (Some c) cs
      | e # _ \<Rightarrow> Some (take (length (c # cs) - length (snd e)) (c # cs)))"

definition rx_search :: "rx \<Rightarrow> string \<Rightarrow> string option" where
  "rx_search r s = search_from r None s"

definition rx_matches :: "rx \<Rightarrow> string \<Rightarrow> bool" where
  "rx_matches r s = (rx_search r s \<noteq> None)"

text \<open>Shorthands used to write the tables.\<close>

definition lit :: "string \<Rightarrow> rx" where
  "lit s = foldr (\<lambda>c r. Seq (One [Ch c]) r) s Eps"

definition seqs :: "rx list \<Rightarrow> rx" where
  "seqs rs = foldr Seq rs Eps"

fun alts :: "rx list \<Rightarrow> rx" where
  "alts [] = Eps"
| "alts [r] = r"
| "alts (r # rs) = Alt r (alts rs)"

definition words :: "string list \<Rightarrow> rx" where
  "words ws = alts (map lit ws)"

definition many1 :: "citem list \<Rightarrow> rx" where
  "many1 cl = Seq (One cl) (Many cl)"

definition sp1 :: rx where
  "sp1 = many1 [Spc]"

definition sp0 :: rx where
  "sp0 = Many [Spc]"

definition alnum :: "citem list" where
  "alnum = [Rg CHR ''a'' CHR ''z'', Rg CHR ''A'' CHR ''Z'', Rg CHR ''0'' CHR ''9'']"

section \<open>Data model\<close>

text \<open>
  \<open>EmailAttachment\<close> and \<open>EmailMessage\<close> of the mail client, with the fields the scanner
  reads. (\<open>size\<close> is \<open>att_size\<close> here, and the attachment's \<open>filename\<close> and \<open>mime_type\<close>
  carry the prefix \<open>att_\<close> to keep them apart from the asset's fields.)
\<close>

record email_attachment =
  att_filename :: string
  att_mime_type :: string
  att_size :: int
  attachment_id :: string

record email_message =
  message_id :: string
  from_address :: string
  subject :: string
  body_text :: "string option"
  body_html :: "string option"
  attachments :: "email_attachment list"

datatype classification =
    DATA_HIGH_CONFIDENCE
  | DATA_MEDIUM_CONFIDENCE
  | UNCERTAIN
  | NOT_DATA

text \<open>
  The factor labels are strings built with f-strings in the source; here each label is
  a constructor that carries what the f-string interpolates (the pattern itself stands
  for the first 30 characters of its text).
\<close>

datatype factor =
    Skip_pattern_matched
  | Blocklisted_sender
  | Subject_high_match rx
  | Subject_med_match rx
  | Body_delivery_phrase string
  | Body_metrics_mentioned nat
  | Attachment_data_file string
  | Link_detected string
  | Reply_forward_penalty

datatype match_factor =
    Sender_match
  | Subject_pattern_match
  | Format_match
  | Column_match nat nat

record classification_result =
  classification :: classification
  score :: rat
  factors :: "factor list"
  matched_patterns :: "match_factor list"

section \<open>EmailClassifier\<close>

definition HIGH_CONF_SUBJECT_PATTERNS :: "rx list" where
  "HIGH_CONF_SUBJECT_PATTERNS =
     [seqs [Bnd, words [''weekly'', ''daily'', ''monthly'', ''quarterly''], sp1,
            words [''report'', ''data'', ''metrics'', ''analytics''], Bnd],
      seqs [Bnd, lit ''performance'', sp1,
            words [''report'', ''data'', ''export'', ''metrics''], Bnd],
      seqs [Bnd, Alt (Seq (lit ''Q'') (One [Rg CHR ''1'' CHR ''4'']))
                     (seqs [One [Dig], One [Dig], One [Dig], One [Dig]]), sp1,
            words [''results'', ''report'', ''data''], Bnd],
      seqs [Bnd, lit ''media'', sp1, words [''plan'', ''report'', ''data'', ''metrics''], Bnd],
      seqs [Bnd, words [''campaign'', ''placement'', ''partner''], sp1, lit ''report'', Bnd]]"

definition MEDIUM_CONF_SUBJECT_PATTERNS :: "rx list" where
  "MEDIUM_CONF_SUBJECT_PATTERNS =
     [seqs [Bnd, words [''attached'', ''export'', ''summary'', ''numbers'', ''results''], Bnd],
      seqs [Bnd, words [''jan'', ''feb'', ''mar'', ''apr'', ''may'', ''jun'', ''jul'', ''aug'',
                        ''sep'', ''oct'', ''nov'', ''dec''], sp1,
            One [Dig], One [Dig], One [Dig], One [Dig], Bnd],
      seqs [Bnd, lit ''week'', sp0, Opt (words [''of'', ''ending'']), sp0, One [Dig]]]"

definition SKIP_SUBJECT_PATTERNS :: "rx list" where
  "SKIP_SUBJECT_PATTERNS =
     [seqs [Bol, words [''re:'', ''fwd:'', ''fw:''], sp0, lit ''re:''],
      seqs [Bnd, lit ''out'', sp1, lit ''of'', sp1, lit ''office'', Bnd],
      seqs [Bnd, lit ''automatic'', sp1, lit ''reply'', Bnd],
      seqs [Bnd, lit ''unsubscribe'', Bnd],
      seqs [Bnd, lit ''calendar'', Bnd],
      seqs [Bnd, lit ''meeting'', sp1, words [''invite'', ''invitation''], Bnd],
      seqs [Bnd, words [''invoice'', ''payment'', ''billing''], Bnd]]"

definition DELIVERY_PHRASES :: "string list" where
  "DELIVERY_PHRASES =
     [''please find attached'', ''attached please find'', ''attached is the'',
      ''here is the data'', ''here is the report'', ''here are the numbers'',
      ''as requested'', ''for your review'', ''latest numbers'', ''updated report'',
      ''this week'' @ [CHR 0x27] @ ''s data'', ''this month'' @ [CHR 0x27] @ ''s report'']"

definition METRIC_PATTERNS :: "rx list" where
  "METRIC_PATTERNS =
     [seqs [Bnd, Alt (Seq (lit ''impression'') (Opt (lit ''s''))) (Seq (lit ''imp'') (Opt (lit ''s''))), Bnd],
      seqs [Bnd, Alt (Seq (lit ''click'') (Opt (lit ''s''))) (lit ''click-through''), Bnd],
      seqs [Bnd, words [''spend'', ''cost'', ''budget''], Bnd],
      seqs [Bnd, Alt (Seq (lit ''conversion'') (Opt (lit ''s''))) (Seq (lit ''convert'') (Opt (lit ''s''))), Bnd],
      seqs [Bnd, Alt (Seq (lit ''view'') (Opt (lit ''s'')))
                     (seqs [lit ''video'', sp0, lit ''view'', Opt (lit ''s'')]), Bnd],
      seqs [Bnd, words [''CPM'', ''CPC'', ''CPA'', ''CPV'', ''CPCV''], Bnd],
      seqs [Bnd, words [''CTR'', ''VTR'', ''CVR''], Bnd]]"

definition DATA_EXTENSIONS :: "(string \<times> rat) list" where
  "DATA_EXTENSIONS =
     [(''.csv'', 3/10), (''.xlsx'', 3/10), (''.xls'', 3/10), (''.tsv'', 3/10),
      (''.json'', 1/5), (''.xml'', 1/5)]"

definition LINK_PATTERNS :: "(string \<times> rx) list" where
  "LINK_PATTERNS =
     [(''google_sheets'',
         Seq (lit ''docs.google.com/spreadsheets/d/'')
             (many1 (alnum @ [Ch CHR ''_'', Ch CHR ''-'']))),
      (''dropbox'',
         Alt (Seq (lit ''dropbox.com/s/'') (many1 alnum)) (lit ''dl.dropboxusercontent.com'')),
      (''box'',
         Alt (Seq (lit ''box.com/s/'') (many1 alnum)) (Seq (lit ''app.box.com/s/'') (many1 alnum))),
      (''onedrive'', Alt (lit ''1drv.ms/'') (lit ''onedrive.live.com'')),
      (''s3_presigned'',
         seqs [lit ''s3'', One [Ch CHR ''.'', Ch CHR ''-''],
               many1 [Rg CHR ''a'' CHR ''z'', Rg CHR ''0'' CHR ''9'', Ch CHR ''-''],
               lit ''.amazonaws.com'', Many [AnyC], lit ''X-Amz-Signature''])]"

text \<open>\<open>email.body_text or email.body_html or ""\<close>\<close>

definition truthy :: "'a list option \<Rightarrow> bool" where
  "truthy v = (case v of None \<Rightarrow> False | Some s \<Rightarrow> s \<noteq> [])"

definition body_of :: "email_message \<Rightarrow> string" where
  "body_of e =
     (if truthy (body_text e) then the (body_text e)
      else if truthy (body_html e) then the (body_html e) else [])"

definition analyze_subject :: "string \<Rightarrow> rat \<times> factor list" where
  "analyze_subject subj =
     (let (s1, f1) = (case find (\<lambda>r. rx_matches r subj) HIGH_CONF_SUBJECT_PATTERNS of
                        Some r \<Rightarrow> (3/10, [Subject_high_match r])
                      | None \<Rightarrow> (0, []));
          (s2, f2) = (case find (\<lambda>r. rx_matches r subj) MEDIUM_CONF_SUBJECT_PATTERNS of
                        Some r \<Rightarrow> (3/20, [Subject_med_match r])
                      | None \<Rightarrow> (0, []))
      in (s1 + s2, f1 @ f2))"

definition analyze_body :: "string \<Rightarrow> rat \<times> factor list" where
  "analyze_body body =
     (let body_lower = lower body;
          (s1, f1) = (case find (\<lambda>phrase. str_in phrase body_lower) DELIVERY_PHRASES of
                        Some phrase \<Rightarrow> (1/5, [Body_delivery_phrase (take 20 phrase)])
                      | None \<Rightarrow> (0, []));
          metric_count = length (filter (\<lambda>r. rx_matches r body) METRIC_PATTERNS);
          (s2, f2) = (if metric_count > 0
                      then (min (3/20) (of_nat metric_count * (1/20)),
                            [Body_metrics_mentioned metric_count])
                      else (0, []))
      in (s1 + s2, f1 @ f2))"

definition data_ext :: "email_attachment \<Rightarrow> string" where
  "data_ext att = lower (path_suffix (att_filename att))"

definition analyze_attachments :: "email_attachment list \<Rightarrow> rat \<times> factor list" where
  "analyze_attachments atts =
     (case find (\<lambda>att. map_of DATA_EXTENSIONS (data_ext att) \<noteq> None) atts of
        Some att \<Rightarrow> (the (map_of DATA_EXTENSIONS (data_ext att)),
                     [Attachment_data_file (att_filename att)])
      | None \<Rightarrow> (0, []))"

definition analyze_links :: "string \<Rightarrow> rat \<times> factor list" where
  "analyze_links body =
     (case find (\<lambda>(link_type, pattern). rx_matches pattern body) LINK_PATTERNS of
        Some (link_type, pattern) \<Rightarrow> (1/5, [Link_detected link_type])
      | None \<Rightarrow> (0, []))"

definition is_reply_forward :: "string \<Rightarrow> bool" where
  "is_reply_forward subj =
     (let s = lower subj in startswith s ''re:'' \<or> startswith s ''fwd:'' \<or> startswith s ''fw:'')"

definition bucket :: "rat \<Rightarrow> classification" where
  "bucket sc =
     (if sc \<ge> 7/10 then DATA_HIGH_CONFIDENCE
      else if sc \<ge> 1/2 then DATA_MEDIUM_CONFIDENCE
      else if sc \<ge> 3/10 then UNCERTAIN
      else NOT_DATA)"

definition raw_score :: "email_message \<Rightarrow> rat \<times> factor list" where
  "raw_score e =
     (let (subj_score, subj_factors) = analyze_subject (subject e);
          body = body_of e;
          (body_score, body_factors) = analyze_body body;
          (att_score, att_factors) = analyze_attachments (attachments e);
          (link_score, link_factors) = analyze_links body;
          sc = 0 + subj_score + body_score + att_score + link_score;
          fs = subj_factors @ body_factors @ att_factors @ link_factors
      in if is_reply_forward (subject e)
         then (sc - 1/10, fs @ [Reply_forward_penalty]) else (sc, fs))"

definition classify :: "email_message \<Rightarrow> classification_result" where
  "classify e =
     (if list_ex (\<lambda>pattern. rx_matches pattern (subject e)) SKIP_SUBJECT_PATTERNS
      then \<lparr>classification = NOT_DATA, score = 0,
            factors = [Skip_pattern_matched], matched_patterns = []\<rparr>
      else
        (let (sc0, fs) = raw_score e;
             sc = max 0 (min 1 sc0)
         in \<lparr>classification = bucket sc, score = sc,
              factors = fs, matched_patterns = []\<rparr>))"

section \<open>PatternMatcher\<close>

datatype asset_kind = Attachment_asset | Link_asset | Inline_table

record extracted_asset =
  asset_type :: asset_kind
  source_email_id :: string
  filename :: "string option"
  file_path :: "string option"
  url :: "string option"
  link_type :: "string option"
  mime_type :: "string option"
  size_bytes :: "int option"
  row_count :: "nat option"
  columns :: "string list option"
  extraction_confidence :: rat
  error :: "string option"

record partner_pattern =
  partner_name :: string
  sender_patterns :: "string list"
  subject_patterns :: "string list"
  expected_format :: "string option"
  expected_columns :: "string list option"
  auto_process :: bool
  confidence_threshold :: rat

text \<open>
  A compiled pattern is used through \<open>search\<close> only, so it is modelled by the predicate
  "\<open>regex.search(s)\<close> finds a match". The regex library itself is a parameter
  \<open>re_search\<close>: \<open>re_search p s\<close> stands for \<open>re.compile(p, re.I).search(s)\<close> being a match.
  \<open>PatternMatcher.__init__\<close> turns each sender glob into a regex text and compiles the
  catalog, in catalog order.
\<close>

type_synonym compiled_regex = "string \<Rightarrow> bool"

type_synonym compiled_pattern = "partner_pattern \<times> compiled_regex list \<times> compiled_regex list"

definition glob_to_regex :: "string \<Rightarrow> string" where
  "glob_to_regex g =
     concat (map (\<lambda>c. if c = CHR ''*'' then ''.*'' else if c = CHR ''?'' then ''.'' else [c]) g)"

definition compile_patterns ::
  "(string \<Rightarrow> string \<Rightarrow> bool) \<Rightarrow> partner_pattern list \<Rightarrow> compiled_pattern list" where
  "compile_patterns re_search patterns =
     map (\<lambda>p. (p, map (\<lambda>sp. re_search (glob_to_regex sp)) (sender_patterns p),
                   map re_search (subject_patterns p))) patterns"

text \<open>The body of the loop of \<open>match\<close>: the score and factors of one catalog entry.\<close>

definition sender_part :: "compiled_pattern \<Rightarrow> email_message \<Rightarrow> rat \<times> match_factor list" where
  "sender_part c e =
     (if list_ex (\<lambda>regex. regex (from_address e)) (fst (snd c))
      then (3/10, [Sender_match]) else (0, []))"

definition subject_part :: "compiled_pattern \<Rightarrow> email_message \<Rightarrow> rat \<times> match_factor list" where
  "subject_part c e =
     (if list_ex (\<lambda>regex. regex (subject e)) (snd (snd c))
      then (1/5, [Subject_pattern_match]) else (0, []))"

definition format_part ::
  "compiled_pattern \<Rightarrow> extracted_asset list \<Rightarrow> rat \<times> match_factor list" where
  "format_part c assets =
     (if truthy (expected_format (fst c)) \<and> assets \<noteq> []
         \<and> list_ex (\<lambda>asset. truthy (filename asset)
               \<and> lstrip_dot (lower (path_suffix (the (filename asset))))
                   = lstrip_dot (lower (the (expected_format (fst c))))) assets
      then (1/5, [Format_match]) else (0, []))"

definition column_part ::
  "compiled_pattern \<Rightarrow> extracted_asset list \<Rightarrow> rat \<times> match_factor list" where
  "column_part c assets =
     (if truthy (expected_columns (fst c))
      then (case find (\<lambda>asset. truthy (columns asset)) assets of
              None \<Rightarrow> (0, [])
            | Some asset \<Rightarrow>
                (let expected = the (expected_columns (fst c));
                     matched_cols = length (filter
                        (\<lambda>col. lower col \<in> set (map lower (the (columns asset)))) expected)
                 in (3/10 * (of_nat matched_cols / of_nat (length expected)),
                     [Column_match matched_cols (length expected)])))
      else (0, []))"

definition entry_score ::
  "compiled_pattern \<Rightarrow> email_message \<Rightarrow> extracted_asset list \<Rightarrow> rat \<times> match_factor list" where
  "entry_score c e assets =
     (let (s1, f1) = sender_part c e;
          (s2, f2) = subject_part c e;
          (s3, f3) = format_part c assets;
          (s4, f4) = column_part c assets
      in (0 + s1 + s2 + s3 + s4, f1 @ f2 @ f3 @ f4))"

type_synonym match_result = "string option \<times> rat \<times> match_factor list"

fun match_loop ::
  "compiled_pattern list \<Rightarrow> email_message \<Rightarrow> extracted_asset list \<Rightarrow> match_result \<Rightarrow> match_result" where
  "match_loop [] e assets best = best"
| "match_loop (c # cs) e assets (best_match, best_score, best_factors) =
     (let (sc, fs) = entry_score c e assets
      in if sc > best_score
         then match_loop cs e assets (Some (partner_name (fst c)), sc, fs)
         else match_loop cs e assets (best_match, best_score, best_factors))"

definition match ::
  "compiled_pattern list \<Rightarrow> email_message \<Rightarrow> extracted_asset list \<Rightarrow> match_result" where
  "match compiled e assets = match_loop compiled e assets (None, 0, [])"

section \<open>EmailScanner\<close>

text \<open>
  The scanner's configuration after \<open>__init__\<close>: the catalog, the compiled matcher,
  the extraction directory and the two block lists, lower-cased.
\<close>

record scanner =
  patterns :: "partner_pattern list"
  matcher :: "compiled_pattern list"
  extraction_dir :: string
  blocklist_senders :: "string list"
  blocklist_domains :: "string list"

definition email_scanner ::
  "(string \<Rightarrow> string \<Rightarrow> bool) \<Rightarrow> partner_pattern list \<Rightarrow> string \<Rightarrow> string list \<Rightarrow> string list
     \<Rightarrow> scanner" where
  "email_scanner re_search pats dir senders domains =
     \<lparr>patterns = pats, matcher = compile_patterns re_search pats, extraction_dir = dir,
      blocklist_senders = map lower senders, blocklist_domains = map lower domains\<rparr>"

definition sender_blocked :: "string \<Rightarrow> string \<Rightarrow> bool" where
  "sender_blocked from_addr blocked =
     (if startswith blocked ''*@'' then endswith from_addr (drop 1 blocked)
      else str_in blocked from_addr)"

definition domain_blocked :: "string \<Rightarrow> string \<Rightarrow> bool" where
  "domain_blocked from_addr domain = str_in (''@'' @ domain) from_addr"

definition is_blocklisted :: "scanner \<Rightarrow> email_message \<Rightarrow> bool" where
  "is_blocklisted sc e =
     (let from_addr = lower (from_address e)
      in if list_ex (sender_blocked from_addr) (blocklist_senders sc) then True
         else if list_ex (domain_blocked from_addr) (blocklist_domains sc) then True
         else False)"

text \<open>
  The mail client and the file system are the environment. \<open>'w\<close> is the state of the
  world; a call that can raise returns \<open>Inl\<close> of the exception's text.
  \<^item> \<open>save_attachment env message_id att dir\<close> is \<open>GmailClient.save_attachment\<close>: it
    downloads and stores the attachment and returns the path of the file;
  \<^item> \<open>path_exists env path\<close> is \<open>file_path.exists()\<close>;
  \<^item> \<open>read_header env path\<close> is the body of the \<open>try\<close> of \<open>_extract_columns\<close>: the
    first-row read of a csv, xlsx or json file.
\<close>

record 'w environment =
  save_attachment :: "string \<Rightarrow> email_attachment \<Rightarrow> string \<Rightarrow> 'w \<Rightarrow> (string + string) \<times> 'w"
  path_exists :: "string \<Rightarrow> 'w \<Rightarrow> bool"
  read_header :: "string \<Rightarrow> 'w \<Rightarrow> string + string list option"

definition extract_columns :: "'w environment \<Rightarrow> string \<Rightarrow> 'w \<Rightarrow> string list option" where
  "extract_columns env path w =
     (case read_header env path w of Inl err \<Rightarrow> None | Inr cols \<Rightarrow> cols)"

definition is_data_file :: "email_attachment \<Rightarrow> bool" where
  "is_data_file att = (map_of DATA_EXTENSIONS (data_ext att) \<noteq> None)"

definition attachment_asset ::
  "'w environment \<Rightarrow> string \<Rightarrow> email_attachment \<Rightarrow> (string + string) \<Rightarrow> 'w \<Rightarrow> extracted_asset" where
  "attachment_asset env mid att saved w =
     (case saved of
        Inr fp \<Rightarrow>
          \<lparr>asset_type = Attachment_asset, source_email_id = mid,
           filename = Some (att_filename att), file_path = Some fp, url = None,
           link_type = None, mime_type = Some (att_mime_type att),
           size_bytes = Some (att_size att), row_count = None,
           columns = (if path_exists env fp w then extract_columns env fp w else None),
           extraction_confidence = 1, error = None\<rparr>
      | Inl err \<Rightarrow>
          \<lparr>asset_type = Attachment_asset, source_email_id = mid,
           filename = Some (att_filename att), file_path = None, url = None,
           link_type = None, mime_type = None, size_bytes = None, row_count = None,
           columns = None, extraction_confidence = 1, error = Some err\<rparr>)"

fun extract_attachments ::
  "'w environment \<Rightarrow> string \<Rightarrow> string \<Rightarrow> email_attachment list \<Rightarrow> 'w
     \<Rightarrow> extracted_asset list \<times> 'w" where
  "extract_attachments env mid dir [] w = ([], w)"
| "extract_attachments env mid dir (att # atts) w =
     (if is_data_file att
      then (let (saved, w1) = save_attachment env mid att dir w;
                (rest, w2) = extract_attachments env mid dir atts w1
            in (attachment_asset env mid att saved w1 # rest, w2))
      else extract_attachments env mid dir atts w)"

definition link_asset :: "string \<Rightarrow> string \<Rightarrow> string \<Rightarrow> extracted_asset" where
  "link_asset mid ltype u =
     \<lparr>asset_type = Link_asset, source_email_id = mid, filename = None, file_path = None,
      url = Some u, link_type = Some ltype, mime_type = None, size_bytes = None,
      row_count = None, columns = None, extraction_confidence = 1, error = None\<rparr>"

definition extract_links :: "string \<Rightarrow> string \<Rightarrow> extracted_asset list" where
  "extract_links mid body =
     concat (map (\<lambda>(ltype, pattern).
                    case rx_search pattern body of
                      None \<Rightarrow> []
                    | Some u \<Rightarrow> [link_asset mid ltype u]) LINK_PATTERNS)"

definition extract_assets ::
  "'w environment \<Rightarrow> scanner \<Rightarrow> email_message \<Rightarrow> string \<Rightarrow> 'w \<Rightarrow> extracted_asset list \<times> 'w" where
  "extract_assets env sc e run w =
     (let extract_path = extraction_dir sc @ ''/'' @ run;
          (atts, w1) = extract_attachments env (message_id e) extract_path (attachments e) w
      in (atts @ extract_links (message_id e) (body_of e), w1))"

record scan_result =
  email :: email_message
  classification_result :: classification_result
  extracted_assets :: "extracted_asset list"
  matched_partner :: "string option"
  pattern_match_confidence :: rat
  route_action :: string

text \<open>The routing decision of \<open>scan_email\<close>, after the matcher has answered.\<close>

definition route_of ::
  "scanner \<Rightarrow> classification_result \<Rightarrow> string option \<Rightarrow> rat \<Rightarrow> string" where
  "route_of sc cl partner pattern_confidence =
     (if truthy partner
      then (case find (\<lambda>p. partner_name p = the partner) (patterns sc) of
              Some p \<Rightarrow> if auto_process p \<and> pattern_confidence \<ge> confidence_threshold p
                        then ''auto_process'' else ''review''
            | None \<Rightarrow> ''review'')
      else if classification cl = NOT_DATA then ''skip''
      else ''review'')"

definition scan_email ::
  "'w environment \<Rightarrow> scanner \<Rightarrow> email_message \<Rightarrow> string \<Rightarrow> 'w \<Rightarrow> scan_result \<times> 'w" where
  "scan_email env sc e run w =
     (if is_blocklisted sc e
      then (\<lparr>email = e,
             classification_result =
               \<lparr>classification = NOT_DATA, score = 0,
                factors = [Blocklisted_sender], matched_patterns = []\<rparr>,
             extracted_assets = [], matched_partner = None,
             pattern_match_confidence = 0, route_action = ''skip''\<rparr>, w)
      else
        (let cl = classify e
         in if classification cl = NOT_DATA
            then (\<lparr>email = e, classification_result = cl, extracted_assets = [],
                   matched_partner = None, pattern_match_confidence = 0,
                   route_action = ''skip''\<rparr>, w)
            else
              (let (assets, w1) = extract_assets env sc e run w;
                   (partner, pattern_confidence, match_factors) = match (matcher sc) e assets
               in (\<lparr>email = e,
                     classification_result = cl\<lparr>matched_patterns := match_factors\<rparr>,
                     extracted_assets = assets, matched_partner = partner,
                     pattern_match_confidence = pattern_confidence,
                     route_action = route_of sc cl partner pattern_confidence\<rparr>, w1))))"

text \<open>
  The run accumulator of \<open>scan\<close> and the two output projections. The time stamps are
  left out; of the payloads' fields those are kept that identify the message.
\<close>

record auto_payload =
  payload_id :: string
  payload_partner_name :: "string option"
  payload_confidence :: rat
  raw_sources :: "(string \<times> string) list"

record review_item =
  review_id :: string
  review_message_id :: string
  classification_score :: rat
  classification_factors :: "factor list"
  suggested_partner :: "string option"
  review_confidence :: rat

record run_results =
  run_id :: string
  emails_scanned :: nat
  emails_classified_as_data :: nat
  auto_processed :: "auto_payload list"
  review_queue :: "review_item list"
  errors :: "(string \<times> string) list"

definition format_auto_process_payload :: "scan_result \<Rightarrow> string \<Rightarrow> auto_payload" where
  "format_auto_process_payload r run =
     \<lparr>payload_id = run @ ''-'' @ take 8 (message_id (email r)),
      payload_partner_name = matched_partner r,
      payload_confidence = pattern_match_confidence r,
      raw_sources =
        map (\<lambda>asset. (''email://'' @ message_id (email r) @ ''/''
                         @ (case filename asset of None \<Rightarrow> ''None'' | Some f \<Rightarrow> f),
                       the (file_path asset)))
            (filter (\<lambda>asset. truthy (file_path asset)) (extracted_assets r))\<rparr>"

definition format_review_item :: "scan_result \<Rightarrow> string \<Rightarrow> review_item" where
  "format_review_item r run =
     \<lparr>review_id = ''rev-'' @ run @ ''-'' @ take 8 (message_id (email r)),
      review_message_id = message_id (email r),
      classification_score = score (classification_result r),
      classification_factors = factors (classification_result r),
      suggested_partner = matched_partner r,
      review_confidence = pattern_match_confidence r\<rparr>"

definition new_run :: "string \<Rightarrow> run_results" where
  "new_run run =
     \<lparr>run_id = run, emails_scanned = 0, emails_classified_as_data = 0,
      auto_processed = [], review_queue = [], errors = []\<rparr>"

text \<open>
  One turn of the loop of \<open>scan\<close>. The per-message pipeline is a parameter that may
  raise: \<open>Inl\<close> of the exception's text is what \<open>except Exception as e\<close> receives as
  \<open>str(e)\<close>. The counter is incremented before the \<open>try\<close>.
\<close>

type_synonym 'w pipeline = "email_message \<Rightarrow> string \<Rightarrow> 'w \<Rightarrow> (string + scan_result) \<times> 'w"

definition scan_step ::
  "'w pipeline \<Rightarrow> string \<Rightarrow> run_results \<times> 'w \<Rightarrow> email_message \<Rightarrow> run_results \<times> 'w" where
  "scan_step pipeline run acc e =
     (let res1 = (fst acc)\<lparr>emails_scanned := emails_scanned (fst acc) + 1\<rparr>;
          (outcome, w1) = pipeline e run (snd acc)
      in case outcome of
           Inl err \<Rightarrow> (res1\<lparr>errors := errors res1 @ [(message_id e, err)]\<rparr>, w1)
         | Inr r \<Rightarrow>
             (let res2 = (if classification (classification_result r) \<noteq> NOT_DATA
                          then res1\<lparr>emails_classified_as_data :=
                                       emails_classified_as_data res1 + 1\<rparr>
                          else res1)
              in if route_action r = ''auto_process''
                 then (res2\<lparr>auto_processed :=
                              auto_processed res2 @ [format_auto_process_payload r run]\<rparr>, w1)
                 else if route_action r = ''review''
                 then (res2\<lparr>review_queue :=
                              review_queue res2 @ [format_review_item r run]\<rparr>, w1)
                 else (res2, w1)))"

text \<open>
  The fetching half of the mail client behind \<open>self.gmail\<close> (the environment above
  holds its \<open>save_attachment\<close>): the names of the parameters that its \<open>fetch_emails\<close>
  takes, \<open>list_message_ids\<close> with the authentication that precedes it, and
  \<open>_fetch_message_details\<close> with the parsing of the message. Each of the two calls
  may raise; of a fetch, the client tells \<open>HttpError\<close> from every other exception.
\<close>

datatype fetch_error = HttpError string | Other_error string

record 'w gmail_client =
  fetch_emails_params :: "string list"
  list_message_ids :: "string \<Rightarrow> 'w \<Rightarrow> (string + string list) \<times> 'w"
  fetch_message_details :: "string \<Rightarrow> 'w \<Rightarrow> (fetch_error + email_message) \<times> 'w"

text \<open>The signature of \<open>GmailClient.fetch_emails\<close>, and the client of that class.\<close>

definition GmailClient_fetch_emails_params :: "string list" where
  "GmailClient_fetch_emails_params =
     [''query'', ''since'', ''until'', ''max_results'', ''include_body'',
      ''include_attachments'', ''in_inbox'', ''category'']"

definition GmailClient ::
  "(string \<Rightarrow> 'w \<Rightarrow> (string + string list) \<times> 'w)
   \<Rightarrow> (string \<Rightarrow> 'w \<Rightarrow> (fetch_error + email_message) \<times> 'w) \<Rightarrow> 'w gmail_client" where
  "GmailClient list_ids details =
     \<lparr>fetch_emails_params = GmailClient_fetch_emails_params,
      list_message_ids = list_ids, fetch_message_details = details\<rparr>"

text \<open>
  \<open>build_query\<close>, for the four arguments that \<open>fetch_emails\<close> passes. A date is the
  text that \<open>strftime('%Y/%m/%d')\<close> gives.
\<close>

fun join_space :: "string list \<Rightarrow> string" where
  "join_space [] = []"
| "join_space [p] = p"
| "join_space (p # q # ps) = p @ '' '' @ join_space (q # ps)"

definition build_query ::
  "string option \<Rightarrow> string option \<Rightarrow> bool \<Rightarrow> string option \<Rightarrow> string" where
  "build_query since until in_inbox category =
     join_space
       ((case since of Some d \<Rightarrow> [''after:'' @ d] | None \<Rightarrow> [])
        @ (case until of Some d \<Rightarrow> [''before:'' @ d] | None \<Rightarrow> [])
        @ (if in_inbox then [''in:inbox''] else [])
        @ (if truthy category then [''category:'' @ the category] else []))"

text \<open>\<open>msg_refs[:max_results]\<close>: a negative bound drops that many from the end.\<close>

definition list_prefix :: "int \<Rightarrow> 'a list \<Rightarrow> 'a list" where
  "list_prefix n xs =
     (if 0 \<le> n then take (nat n) xs else take (length xs - nat (- n)) xs)"

text \<open>
  The call \<open>self.gmail.fetch_emails(since=..., query=..., max_results=..., labels=...)\<close>
  binds its keywords first: a keyword that is no parameter raises \<open>TypeError\<close> at the
  call, before the generator exists.
\<close>

definition scan_keywords :: "string list" where
  "scan_keywords = [''since'', ''query'', ''max_results'', ''labels'']"

definition unexpected_keyword :: "string list \<Rightarrow> string list \<Rightarrow> string option" where
  "unexpected_keyword params keywords = find (\<lambda>k. k \<notin> set params) keywords"

text \<open>
  What leaves \<open>scan\<close> as an exception: the \<open>TypeError\<close> of the call, with the keyword
  it names, or an exception of the generator, with its text.
\<close>

datatype run_failure = TypeError string | Fetch_failure string

text \<open>
  The \<open>for\<close> statement of \<open>scan\<close> over the generator \<open>fetch_emails\<close>, which is lazy:
  the message of one reference is fetched when the loop body of the message before
  has ended. An \<open>HttpError\<close> of a fetch is caught in the generator, which goes on with
  the next reference (the message is not yielded); any other exception of a fetch
  leaves the generator through the header of the \<open>for\<close> statement, which no \<open>try\<close>
  encloses, and ends \<open>scan\<close>. A fetched message is always yielded: an \<open>EmailMessage\<close> is
  truthy.
\<close>

fun scan_loop ::
  "'w gmail_client \<Rightarrow> 'w pipeline \<Rightarrow> string \<Rightarrow> string list \<Rightarrow> run_results \<Rightarrow> 'w
   \<Rightarrow> (run_failure + run_results) \<times> 'w" where
  "scan_loop client pipeline run [] res w = (Inr res, w)"
| "scan_loop client pipeline run (msg_ref # msg_refs) res w =
     (case fetch_message_details client msg_ref w of
        (Inl (HttpError err), w1) \<Rightarrow> scan_loop client pipeline run msg_refs res w1
      | (Inl (Other_error err), w1) \<Rightarrow> (Inl (Fetch_failure err), w1)
      | (Inr e, w1) \<Rightarrow>
          scan_loop client pipeline run msg_refs
            (fst (scan_step pipeline run (res, w1) e))
            (snd (scan_step pipeline run (res, w1) e)))"

text \<open>The body of the \<open>try\<close> up to the routing: \<open>scan_email\<close>, which returns.\<close>

definition scan_pipeline :: "'w environment \<Rightarrow> scanner \<Rightarrow> 'w pipeline" where
  "scan_pipeline env sc e run w = (let (res, w1) = scan_email env sc e run w in (Inr res, w1))"

text \<open>
  \<open>scan\<close>, for the run id that the clock gives. The generator runs up to its first
  \<open>yield\<close> when the loop asks for the first message: it authenticates, takes the
  query or builds one from \<open>since\<close>, lists the ids and cuts the list; an exception
  there ends \<open>scan\<close> as well. The argument \<open>labels\<close> is used for its keyword only.
\<close>

definition scan ::
  "'w gmail_client \<Rightarrow> 'w environment \<Rightarrow> scanner \<Rightarrow> string \<Rightarrow> string option \<Rightarrow> string option
   \<Rightarrow> int \<Rightarrow> 'w \<Rightarrow> (run_failure + run_results) \<times> 'w" where
  "scan client env sc run since query max_results w =
     (case unexpected_keyword (fetch_emails_params client) scan_keywords of
        Some k \<Rightarrow> (Inl (TypeError k), w)
      | None \<Rightarrow>
          (case list_message_ids client
                  (if truthy query then the query else build_query since None True None) w of
             (Inl err, w1) \<Rightarrow> (Inl (Fetch_failure err), w1)
           | (Inr msg_refs, w1) \<Rightarrow>
               scan_loop client (scan_pipeline env sc) run (list_prefix max_results msg_refs)
                 (new_run run) w1))"

section \<open>What a run does with each message\<close>

text \<open>
  To state what the run summary holds, the messages that the loop takes from the
  generator are listed in order, each with the outcome of the per-message pipeline on
  it, computed in the world that the fetches and the messages before it have left. The
  list ends where the loop ends. An outcome resolves to one of four ends: the
  pipeline raised, or the route of its result is \<open>auto_process\<close>, \<open>review\<close>, or
  anything else (a skip).
\<close>

datatype resolution = Auto_processed | Review_queue | Skipped | Errored

fun processed ::
  "'w gmail_client \<Rightarrow> 'w pipeline \<Rightarrow> string \<Rightarrow> string list \<Rightarrow> 'w
   \<Rightarrow> (email_message \<times> (string + scan_result)) list" where
  "processed client pipeline run [] w = []"
| "processed client pipeline run (msg_ref # msg_refs) w =
     (case fetch_message_details client msg_ref w of
        (Inl (HttpError err), w1) \<Rightarrow> processed client pipeline run msg_refs w1
      | (Inl (Other_error err), w1) \<Rightarrow> []
      | (Inr e, w1) \<Rightarrow>
          (e, fst (pipeline e run w1))
            # processed client pipeline run msg_refs (snd (pipeline e run w1)))"

definition resolve :: "string + scan_result \<Rightarrow> resolution" where
  "resolve outcome =
     (case outcome of
        Inl err \<Rightarrow> Errored
      | Inr r \<Rightarrow> if route_action r = ''auto_process'' then Auto_processed
                 else if route_action r = ''review'' then Review_queue
                 else Skipped)"

text \<open>The entries that one outcome adds to the three lists of the summary.\<close>

definition error_entry :: "email_message \<Rightarrow> string + scan_result \<Rightarrow> (string \<times> string) list" where
  "error_entry e outcome =
     (case outcome of Inl err \<Rightarrow> [(message_id e, err)] | Inr r \<Rightarrow> [])"

definition auto_entry :: "string \<Rightarrow> string + scan_result \<Rightarrow> auto_payload list" where
  "auto_entry run outcome =
     (case outcome of
        Inl err \<Rightarrow> []
      | Inr r \<Rightarrow> if resolve outcome = Auto_processed
                 then [format_auto_process_payload r run] else [])"

definition review_entry :: "string \<Rightarrow> string + scan_result \<Rightarrow> review_item list" where
  "review_entry run outcome =
     (case outcome of
        Inl err \<Rightarrow> []
      | Inr r \<Rightarrow> if resolve outcome = Review_queue
                 then [format_review_item r run] else [])"


section \<open>Concrete inputs\<close>

text \<open>
  The inputs on which the theorems below are instantiated. \<open>re_literal\<close> is the regex
  library on patterns without metacharacters: such a pattern is found, case ignored,
  exactly where it occurs as a substring.
\<close>

definition re_literal :: "string \<Rightarrow> string \<Rightarrow> bool" where
  "re_literal p s = str_in (lower p) (lower s)"

definition plain_email :: "string \<Rightarrow> string \<Rightarrow> email_message" where
  "plain_email sender subj =
     \<lparr>message_id = ''m1'', from_address = sender, subject = subj,
      body_text = None, body_html = None, attachments = []\<rparr>"

definition file_named :: "string \<Rightarrow> email_attachment" where
  "file_named name =
     \<lparr>att_filename = name, att_mime_type = ''text/csv'', att_size = 120, attachment_id = ''a1''\<rparr>"

definition partner_entry :: "string \<Rightarrow> bool \<Rightarrow> rat \<Rightarrow> partner_pattern" where
  "partner_entry name auto threshold =
     \<lparr>partner_name = name, sender_patterns = [''acme''], subject_patterns = [''report''],
      expected_format = None, expected_columns = None,
      auto_process = auto, confidence_threshold = threshold\<rparr>"

text \<open>Scenario E of the specification: two entries that score alike.\<close>

definition catalog_e :: "compiled_pattern list" where
  "catalog_e = compile_patterns re_literal [partner_entry ''A'' True (4/5), partner_entry ''B'' True (4/5)]"

definition data_email :: "string \<Rightarrow> string option \<Rightarrow> email_attachment list \<Rightarrow> email_message" where
  "data_email subj body atts =
     \<lparr>message_id = ''m1'', from_address = ''ops@acme.com'', subject = subj,
      body_text = body, body_html = None, attachments = atts\<rparr>"

text \<open>
  The reading of "the sender address's domain is a domain-suffix match of a blocked
  domain" against which the block list is compared: the domain is what follows the
  last \<open>@\<close> of the address, and it matches when it is the blocked domain or ends with a
  dot and the blocked domain.
\<close>

definition address_domain :: "string \<Rightarrow> string" where
  "address_domain a = rev (takeWhile (\<lambda>c. c \<noteq> CHR ''@'') (rev a))"

definition claimed_domain_suffix_match :: "string \<Rightarrow> string \<Rightarrow> bool" where
  "claimed_domain_suffix_match a d =
     (address_domain a = d \<or> endswith (address_domain a) (''.'' @ d))"

text \<open>
  Three environments over a world without state: one in which every download and
  every header read succeeds, one in which the header read raises, and one in which
  the download raises.
\<close>

definition env_ok :: "unit environment" where
  "env_ok =
     \<lparr>save_attachment = (\<lambda>mid att dir w. (Inr (dir @ ''/'' @ att_filename att), w)),
      path_exists = (\<lambda>path w. True),
      read_header = (\<lambda>path w. Inr (Some [''date'', ''spend'']))\<rparr>"

definition env_probe_fails :: "unit environment" where
  "env_probe_fails = env_ok\<lparr>read_header := (\<lambda>path w. Inl ''not a table'')\<rparr>"

definition env_download_fails :: "unit environment" where
  "env_download_fails = env_ok\<lparr>save_attachment := (\<lambda>mid att dir w. (Inl ''timed out'', w))\<rparr>"

definition plain_scanner :: scanner where
  "plain_scanner = email_scanner re_literal [] ''/tmp'' [] []"

text \<open>
  A message with three attachments, one of them no data file, and a body that names
  a Dropbox link before a Google Sheets link.
\<close>

definition mixed_email :: email_message where
  "mixed_email =
     data_email ''x'' (Some ''dl.dropboxusercontent.com docs.google.com/spreadsheets/d/A1'')
       [file_named ''b.csv'', file_named ''pic.png'', file_named ''a.xlsx'']"

text \<open>
  A pipeline that raises on the message with the subject \<open>boom\<close> and scans every
  other message, and three messages: one without any signal, the one that raises,
  and one with a data file.
\<close>

definition flaky_pipeline :: "unit pipeline" where
  "flaky_pipeline e run w =
     (if subject e = ''boom'' then (Inl ''failure'', w)
      else (Inr (fst (scan_email env_ok plain_scanner e run w)), w))"

definition three_emails :: "email_message list" where
  "three_emails =
     [data_email ''x'' None [],
      (data_email ''boom'' None [])\<lparr>message_id := ''m2''\<rparr>,
      (data_email ''x'' None [file_named ''a.csv''])\<lparr>message_id := ''m3''\<rparr>]"

text \<open>
  The mailbox of the three messages behind the client of the repository; the same
  mailbox behind a client whose \<open>fetch_emails\<close> takes \<open>labels\<close> as well; and that
  client when the fetch of the second message times out.
\<close>

definition fetch_from ::
  "email_message list \<Rightarrow> string \<Rightarrow> unit \<Rightarrow> (fetch_error + email_message) \<times> unit" where
  "fetch_from emails msg_ref w =
     (case find (\<lambda>e. message_id e = msg_ref) emails of
        Some e \<Rightarrow> (Inr e, w)
      | None \<Rightarrow> (Inl (HttpError ''not found''), w))"

definition inbox_client :: "unit gmail_client" where
  "inbox_client =
     GmailClient (\<lambda>q w. (Inr (map message_id three_emails), w)) (fetch_from three_emails)"

definition labels_client :: "unit gmail_client" where
  "labels_client =
     inbox_client\<lparr>fetch_emails_params := GmailClient_fetch_emails_params @ [''labels'']\<rparr>"

definition timeout_client :: "unit gmail_client" where
  "timeout_client =
     labels_client\<lparr>fetch_message_details :=
       (\<lambda>msg_ref w. if msg_ref = ''m2'' then (Inl (Other_error ''timed out''), w)
                     else fetch_from three_emails msg_ref w)\<rparr>"

text \<open>
  Scanners with one catalog entry each, found by the sender \<open>acme\<close>: one with a name
  and a low threshold, one with the default threshold (Scenario D), and one whose
  entry has the empty name. The message carries one data file, so that it is
  classified as uncertain and is matched through its sender alone, with confidence
  0.30.
\<close>

definition acme_scanner :: scanner where
  "acme_scanner = email_scanner re_literal [partner_entry ''Acme'' True (1/5)] ''/tmp'' [] []"

definition strict_scanner :: scanner where
  "strict_scanner = email_scanner re_literal [partner_entry ''Acme'' True (4/5)] ''/tmp'' [] []"

definition unnamed_scanner :: scanner where
  "unnamed_scanner = email_scanner re_literal [partner_entry [] True (1/5)] ''/tmp'' [] []"

definition csv_email :: email_message where
  "csv_email = data_email ''x'' None [file_named ''a.csv'']"

text \<open>Scenario A of the specification.\<close>

definition scenario_a :: email_message where
  "scenario_a =
     \<lparr>message_id = ''m1'', from_address = ''reports@acme.com'',
      subject = ''Weekly Performance Report - Jan 2026'',
      body_text = Some ''please find attached impressions'', body_html = None,
      attachments = [file_named ''report.xlsx'']\<rparr>"


section \<open>The matcher: bounds and the choice among equal scores\<close>

lemma sender_part_bounds: "0 \<le> fst (sender_part c e) \<and> fst (sender_part c e) \<le> 3/10"
  by (simp add: sender_part_def)

lemma subject_part_bounds: "0 \<le> fst (subject_part c e) \<and> fst (subject_part c e) \<le> 1/5"
  by (simp add: subject_part_def)

lemma format_part_bounds: "0 \<le> fst (format_part c assets) \<and> fst (format_part c assets) \<le> 1/5"
  by (simp add: format_part_def)

lemma fraction_le_one: "m \<le> n \<Longrightarrow> (of_nat m / of_nat n :: rat) \<le> 1"
  by (cases "n = 0") (simp_all add: divide_le_eq_1)

lemma column_part_bounds: "0 \<le> fst (column_part c assets) \<and> fst (column_part c assets) \<le> 3/10"
proof -
  have "3/10 * (of_nat (length (filter P xs)) / of_nat (length xs) :: rat) \<le> 3/10" for P and xs :: "string list"
    using fraction_le_one [of "length (filter P xs)" "length xs"] by simp
  then show ?thesis
    by (simp add: column_part_def Let_def split: option.split)
qed

lemma entry_score_bounds: "0 \<le> fst (entry_score c e assets) \<and> fst (entry_score c e assets) \<le> 1"
  using sender_part_bounds [of c e] subject_part_bounds [of c e]
    format_part_bounds [of c assets] column_part_bounds [of c assets]
  by (simp add: entry_score_def split_beta)

lemma match_loop_bounds:
  "0 \<le> fst (snd best) \<Longrightarrow> fst (snd best) \<le> 1
   \<Longrightarrow> 0 \<le> fst (snd (match_loop cs e assets best)) \<and> fst (snd (match_loop cs e assets best)) \<le> 1"
proof (induction cs arbitrary: best)
  case Nil
  then show ?case by simp
next
  case (Cons c cs)
  obtain bm bs bf where best: "best = (bm, bs, bf)" by (cases best) auto
  obtain sc fs where es: "entry_score c e assets = (sc, fs)" by (cases "entry_score c e assets") auto
  have scb: "0 \<le> sc \<and> sc \<le> 1" using entry_score_bounds [of c e assets] es by simp
  show ?case
  proof (cases "sc > bs")
    case True
    then show ?thesis using Cons.IH [of "(Some (partner_name (fst c)), sc, fs)"] scb best es by simp
  next
    case False
    then show ?thesis using Cons.IH [of best] Cons.prems best es by simp
  qed
qed

text \<open>
  Claim C10. For every message, asset list and catalog, the confidence that
  \<open>PatternMatcher.match\<close> returns lies between 0 and 1 although nothing clamps it: the
  four contributions of a catalog entry (sender 0.30, subject 0.20, format 0.20, column
  overlap at most 0.30) are each added at most once, so no entry scores above 1.
\<close>

theorem match_confidence_in_unit_interval:
  "0 \<le> fst (snd (match compiled e assets)) \<and> fst (snd (match compiled e assets)) \<le> 1
   \<and> fst (entry_score c e assets) \<le> 1"
  using match_loop_bounds [of "(None, 0, [])" compiled e assets] entry_score_bounds [of c e assets]
  by (simp add: match_def)

theorem match_confidence_in_unit_interval_witness:
  "fst (snd (match catalog_e (plain_email ''ops@acme.com'' ''report'') [])) = 1/2
   \<and> fst (snd (match catalog_e (plain_email ''ops@acme.com'' ''report'') [])) \<le> 1"
proof -
  have "match catalog_e (plain_email ''ops@acme.com'' ''report'') []
        = (Some ''A'', 1/2, [Sender_match, Subject_pattern_match])"
    by code_simp
  then show ?thesis
    using match_confidence_in_unit_interval [of catalog_e "plain_email ''ops@acme.com'' ''report''" "[]"]
    by simp
qed

lemma match_loop_keep:
  "\<forall>c \<in> set cs. fst (entry_score c e assets) \<le> fst (snd best)
   \<Longrightarrow> match_loop cs e assets best = best"
proof (induction cs arbitrary: best)
  case Nil
  then show ?case by simp
next
  case (Cons c cs)
  obtain bm bs bf where best: "best = (bm, bs, bf)" by (cases best) auto
  from Cons.prems best have "\<not> fst (entry_score c e assets) > bs" by auto
  then show ?case using Cons best by (simp add: split_beta)
qed

lemma match_loop_pick:
  "i < length cs \<Longrightarrow> fst (snd best) < fst (entry_score (cs ! i) e assets)
   \<Longrightarrow> \<forall>j<i. fst (entry_score (cs ! j) e assets) < fst (entry_score (cs ! i) e assets)
   \<Longrightarrow> \<forall>j<length cs. fst (entry_score (cs ! j) e assets) \<le> fst (entry_score (cs ! i) e assets)
   \<Longrightarrow> match_loop cs e assets best
         = (Some (partner_name (fst (cs ! i))), entry_score (cs ! i) e assets)"
proof (induction cs arbitrary: best i)
  case Nil
  then show ?case by simp
next
  case (Cons c cs)
  obtain bm bs bf where best: "best = (bm, bs, bf)" by (cases best) auto
  show ?case
  proof (cases i)
    case 0
    have rest: "\<forall>c' \<in> set cs. fst (entry_score c' e assets) \<le> fst (entry_score c e assets)"
    proof
      fix c' assume "c' \<in> set cs"
      then obtain k where "k < length cs" "cs ! k = c'" by (auto simp: in_set_conv_nth)
      then show "fst (entry_score c' e assets) \<le> fst (entry_score c e assets)"
        using Cons.prems(4) 0 by (auto dest: spec [of _ "Suc k"])
    qed
    have "match_loop cs e assets (Some (partner_name (fst c)), entry_score c e assets)
          = (Some (partner_name (fst c)), entry_score c e assets)"
      using match_loop_keep [of cs e assets "(Some (partner_name (fst c)), entry_score c e assets)"] rest
      by simp
    then show ?thesis using Cons.prems(2) 0 best by (simp add: split_beta)
  next
    case (Suc k)
    have k: "k < length cs" using Cons.prems(1) Suc by simp
    have lt: "fst (entry_score c e assets) < fst (entry_score (cs ! k) e assets)"
      using Cons.prems(3) Suc by (auto dest: spec [of _ 0])
    have p3: "\<forall>j<k. fst (entry_score (cs ! j) e assets) < fst (entry_score (cs ! k) e assets)"
      using Cons.prems(3) Suc by (auto dest: spec [of _ "Suc j" for j])
    have p4: "\<forall>j<length cs. fst (entry_score (cs ! j) e assets) \<le> fst (entry_score (cs ! k) e assets)"
      using Cons.prems(4) Suc by (auto dest: spec [of _ "Suc j" for j])
    have p2: "bs < fst (entry_score (cs ! k) e assets)" using Cons.prems(2) Suc best by simp
    show ?thesis
    proof (cases "fst (entry_score c e assets) > bs")
      case True
      then show ?thesis
        using Cons.IH [of k "(Some (partner_name (fst c)), entry_score c e assets)"] k lt p3 p4 Suc best
        by (simp add: split_beta)
    next
      case False
      then show ?thesis
        using Cons.IH [of k best] k p2 p3 p4 Suc best by (simp add: split_beta)
    qed
  qed
qed

text \<open>
  Claim C5. \<open>PatternMatcher.match\<close> is a function of the catalog, the message and
  the assets. When no entry scores above zero it returns \<open>(None, 0.0, [])\<close>. When
  entry \<open>i\<close> attains the best score of the catalog, that score is positive and every
  entry before \<open>i\<close> scores strictly less, the result is the name, score and factors of
  entry \<open>i\<close>: among entries with the same best score the earliest in catalog order wins.
\<close>

theorem match_returns_earliest_best:
  "((\<forall>c \<in> set compiled. fst (entry_score c e assets) \<le> 0)
      \<longrightarrow> match compiled e assets = (None, 0, []))
   \<and> (i < length compiled \<and> 0 < fst (entry_score (compiled ! i) e assets)
        \<and> (\<forall>j<length compiled. fst (entry_score (compiled ! j) e assets)
                                   \<le> fst (entry_score (compiled ! i) e assets))
        \<and> (\<forall>j<i. fst (entry_score (compiled ! j) e assets)
                     < fst (entry_score (compiled ! i) e assets))
      \<longrightarrow> match compiled e assets
            = (Some (partner_name (fst (compiled ! i))), entry_score (compiled ! i) e assets))"
  using match_loop_keep [of compiled e assets "(None, 0, [])"]
    match_loop_pick [of i compiled "(None, 0, [])" e assets]
  by (simp add: match_def)

theorem match_returns_earliest_best_witness:
  "match catalog_e (plain_email ''ops@acme.com'' ''report'') []
     = (Some ''A'', 1/2, [Sender_match, Subject_pattern_match])
   \<and> match catalog_e (plain_email ''someone@else.org'' ''hello'') [] = (None, 0, [])"
proof -
  let ?e = "plain_email ''ops@acme.com'' ''report''"
  let ?n = "plain_email ''someone@else.org'' ''hello''"
  have len: "length catalog_e = 2" by code_simp
  have s0: "entry_score (catalog_e ! 0) ?e [] = (1/2, [Sender_match, Subject_pattern_match])"
    by code_simp
  have s1: "entry_score (catalog_e ! 1) ?e [] = (1/2, [Sender_match, Subject_pattern_match])"
    by code_simp
  have n0: "partner_name (fst (catalog_e ! 0)) = ''A''" by code_simp
  have all: "\<forall>j<length catalog_e. fst (entry_score (catalog_e ! j) ?e [])
                \<le> fst (entry_score (catalog_e ! 0) ?e [])"
    using len s0 s1 by (auto simp: less_Suc_eq numeral_2_eq_2)
  have first: "match catalog_e ?e [] = (Some ''A'', 1/2, [Sender_match, Subject_pattern_match])"
    using match_returns_earliest_best [of catalog_e ?e "[]" 0] len s0 n0 all by simp
  have zero: "\<forall>c\<in>set catalog_e. fst (entry_score c ?n []) \<le> 0" by code_simp
  have none: "match catalog_e ?n [] = (None, 0, [])"
    using match_returns_earliest_best [of catalog_e ?n "[]" 0] zero by blast
  from first none show ?thesis by simp
qed

section \<open>The classifier: score range, buckets and the skip list\<close>

lemma classify_score_bounds: "0 \<le> score (classify e) \<and> score (classify e) \<le> 1"
  by (simp add: classify_def split_beta Let_def)

lemma classify_bucket: "classification (classify e) = bucket (score (classify e))"
  by (simp add: classify_def split_beta Let_def bucket_def max_def min_def)

text \<open>
  Claim C2. For every message, \<open>classify\<close> returns a score between 0 and 1, and the
  classification follows from the score by the fixed thresholds: at least 0.70 is
  high-confidence data, from 0.50 up to 0.70 medium-confidence data, from 0.30 up to
  0.50 uncertain, and below 0.30 not-data.
\<close>

theorem classify_score_and_bucket:
  "0 \<le> score (classify e) \<and> score (classify e) \<le> 1
   \<and> (7/10 \<le> score (classify e) \<longrightarrow> classification (classify e) = DATA_HIGH_CONFIDENCE)
   \<and> (1/2 \<le> score (classify e) \<and> score (classify e) < 7/10
        \<longrightarrow> classification (classify e) = DATA_MEDIUM_CONFIDENCE)
   \<and> (3/10 \<le> score (classify e) \<and> score (classify e) < 1/2
        \<longrightarrow> classification (classify e) = UNCERTAIN)
   \<and> (score (classify e) < 3/10 \<longrightarrow> classification (classify e) = NOT_DATA)"
  using classify_score_bounds [of e] classify_bucket [of e]
  by (simp add: bucket_def)

theorem classify_score_and_bucket_witness:
  "score (classify (data_email ''x'' (Some ''as requested 1drv.ms/'') [file_named ''a.csv''])) = 7/10
   \<and> classification (classify (data_email ''x'' (Some ''as requested 1drv.ms/'') [file_named ''a.csv'']))
       = DATA_HIGH_CONFIDENCE
   \<and> score (classify (data_email ''x'' (Some ''as requested'') [file_named ''a.csv''])) = 1/2
   \<and> classification (classify (data_email ''x'' (Some ''as requested'') [file_named ''a.csv'']))
       = DATA_MEDIUM_CONFIDENCE
   \<and> score (classify (data_email ''x'' None [file_named ''a.csv''])) = 3/10
   \<and> classification (classify (data_email ''x'' None [file_named ''a.csv''])) = UNCERTAIN
   \<and> score (classify (data_email ''x'' None [])) = 0
   \<and> classification (classify (data_email ''x'' None [])) = NOT_DATA"
proof -
  have h: "score (classify (data_email ''x'' (Some ''as requested 1drv.ms/'') [file_named ''a.csv''])) = 7/10"
    by code_simp
  have m: "score (classify (data_email ''x'' (Some ''as requested'') [file_named ''a.csv''])) = 1/2"
    by code_simp
  have u: "score (classify (data_email ''x'' None [file_named ''a.csv''])) = 3/10"
    by code_simp
  have n: "score (classify (data_email ''x'' None [])) = 0"
    by code_simp
  show ?thesis
    using h m u n
      classify_score_and_bucket [of "data_email ''x'' (Some ''as requested 1drv.ms/'') [file_named ''a.csv'']"]
      classify_score_and_bucket [of "data_email ''x'' (Some ''as requested'') [file_named ''a.csv'']"]
      classify_score_and_bucket [of "data_email ''x'' None [file_named ''a.csv'']"]
      classify_score_and_bucket [of "data_email ''x'' None []"]
    by simp
qed

text \<open>
  Claim C3. When the subject of a message matches one of the skip-subject patterns,
  \<open>classify\<close> returns not-data with score 0 and the single factor of the skip, and
  the result stays the same whatever the body texts and the attachments are.
\<close>

theorem skip_subject_forces_not_data:
  assumes "\<exists>p\<in>set SKIP_SUBJECT_PATTERNS. rx_matches p (subject e)"
  shows "classify e = \<lparr>classification = NOT_DATA, score = 0,
                        factors = [Skip_pattern_matched], matched_patterns = []\<rparr>
         \<and> classify (e\<lparr>body_text := b, body_html := h, attachments := atts\<rparr>) = classify e"
  using assms by (simp add: classify_def list_ex_iff)

theorem skip_subject_forces_not_data_witness:
  "classify (data_email ''Re: Re: lunch tomorrow?'' (Some ''as requested 1drv.ms/'') [file_named ''a.csv''])
     = \<lparr>classification = NOT_DATA, score = 0,
        factors = [Skip_pattern_matched], matched_patterns = []\<rparr>"
proof -
  have "rx_matches (SKIP_SUBJECT_PATTERNS ! 0) ''Re: Re: lunch tomorrow?''"
    by code_simp
  moreover have "SKIP_SUBJECT_PATTERNS ! 0 \<in> set SKIP_SUBJECT_PATTERNS"
    by (simp add: SKIP_SUBJECT_PATTERNS_def)
  ultimately have "\<exists>p\<in>set SKIP_SUBJECT_PATTERNS.
      rx_matches p (subject (data_email ''Re: Re: lunch tomorrow?'' (Some ''as requested 1drv.ms/'') [file_named ''a.csv'']))"
    by (auto simp: data_email_def)
  from skip_subject_forces_not_data [OF this] show ?thesis by simp
qed

section \<open>What the string tests decide\<close>

lemma startswith_iff: "startswith s p \<longleftrightarrow> (\<exists>r. s = p @ r)"
  by (induction s p rule: startswith.induct) auto

lemma endswith_iff: "endswith s p \<longleftrightarrow> (\<exists>r. s = r @ p)"
proof -
  have "(\<exists>r. rev s = rev p @ r) \<longleftrightarrow> (\<exists>r. s = r @ p)"
  proof
    assume "\<exists>r. rev s = rev p @ r"
    then obtain r where "rev s = rev p @ r" by blast
    then have "s = rev r @ p" by (metis rev_append rev_rev_ident)
    then show "\<exists>r. s = r @ p" by blast
  next
    assume "\<exists>r. s = r @ p"
    then show "\<exists>r. rev s = rev p @ r" by auto
  qed
  then show ?thesis by (simp add: endswith_def startswith_iff)
qed

lemma str_in_iff: "str_in sub s \<longleftrightarrow> (\<exists>pre post. s = pre @ sub @ post)"
proof (induction s)
  case Nil
  then show ?case by simp
next
  case (Cons c cs)
  have "(\<exists>pre post. c # cs = pre @ sub @ post)
        \<longleftrightarrow> (\<exists>post. c # cs = sub @ post) \<or> (\<exists>pre post. cs = pre @ sub @ post)"
    by (auto simp: Cons_eq_append_conv)
  then show ?case using Cons by (simp add: startswith_iff)
qed

section \<open>The block list\<close>

lemma is_blocklisted_iff:
  "is_blocklisted sc e \<longleftrightarrow>
     (\<exists>b\<in>set (blocklist_senders sc). sender_blocked (lower (from_address e)) b)
     \<or> (\<exists>d\<in>set (blocklist_domains sc). domain_blocked (lower (from_address e)) d)"
  by (simp add: is_blocklisted_def Let_def list_ex_iff)

lemma sender_blocked_iff:
  "sender_blocked a b \<longleftrightarrow>
     (if (\<exists>rest. b = ''*@'' @ rest) then (\<exists>pre. a = pre @ drop 1 b)
      else (\<exists>pre post. a = pre @ b @ post))"
  by (simp add: sender_blocked_def startswith_iff endswith_iff str_in_iff)

lemma domain_blocked_iff:
  "domain_blocked a d \<longleftrightarrow> (\<exists>pre post. a = pre @ ''@'' @ d @ post)"
  by (simp add: domain_blocked_def str_in_iff)

lemma blocked_is_skipped:
  "is_blocklisted sc e \<Longrightarrow>
   scan_email env sc e run w =
     (\<lparr>email = e,
       classification_result =
         \<lparr>classification = NOT_DATA, score = 0,
          factors = [Blocklisted_sender], matched_patterns = []\<rparr>,
       extracted_assets = [], matched_partner = None,
       pattern_match_confidence = 0, route_action = ''skip''\<rparr>, w)"
  by (simp add: scan_email_def)

text \<open>
  Claim C9, as the code has it. With the block lists that \<open>__init__\<close> lower-cases,
  a message is blocked exactly when the lower-cased sender address contains a
  configured sender entry as a substring (an entry that starts with \<open>*@\<close> matches when
  the address ends with the entry without its star), or contains, anywhere, an \<open>@\<close>
  followed by a configured blocked domain. A blocked message gets the classification
  not-data, the route skip and no assets, and the world is left as it was: nothing is
  extracted.
\<close>

theorem blocklist_is_substring_check:
  "(is_blocklisted (email_scanner re_search pats dir senders domains) e \<longleftrightarrow>
      (\<exists>b\<in>set senders.
          if (\<exists>rest. lower b = ''*@'' @ rest)
          then (\<exists>pre. lower (from_address e) = pre @ drop 1 (lower b))
          else (\<exists>pre post. lower (from_address e) = pre @ lower b @ post))
      \<or> (\<exists>d\<in>set domains. \<exists>pre post. lower (from_address e) = pre @ ''@'' @ lower d @ post))
   \<and> (is_blocklisted sc e \<longrightarrow>
        scan_email env sc e run w =
          (\<lparr>email = e,
            classification_result =
              \<lparr>classification = NOT_DATA, score = 0,
               factors = [Blocklisted_sender], matched_patterns = []\<rparr>,
            extracted_assets = [], matched_partner = None,
            pattern_match_confidence = 0, route_action = ''skip''\<rparr>, w))"
proof -
  have "is_blocklisted (email_scanner re_search pats dir senders domains) e \<longleftrightarrow>
      (\<exists>b\<in>set senders. sender_blocked (lower (from_address e)) (lower b))
      \<or> (\<exists>d\<in>set domains. domain_blocked (lower (from_address e)) (lower d))"
    by (simp add: is_blocklisted_iff email_scanner_def)
  then show ?thesis
    using blocked_is_skipped [of sc e env run w]
    by (simp add: sender_blocked_iff domain_blocked_iff)
qed

theorem blocklist_is_substring_check_witness:
  "is_blocklisted (email_scanner re_literal [] ''/tmp'' [''Billing''] []) (plain_email ''billing@vendor.com'' ''x'')
   \<and> route_action (fst (scan_email env_ok (email_scanner re_literal [] ''/tmp'' [''Billing''] [])
                            (plain_email ''billing@vendor.com'' ''x'') ''r1'' ())) = ''skip''
   \<and> extracted_assets (fst (scan_email env_ok (email_scanner re_literal [] ''/tmp'' [''Billing''] [])
                            (plain_email ''billing@vendor.com'' ''x'') ''r1'' ())) = []"
proof -
  let ?sc = "email_scanner re_literal [] ''/tmp'' [''Billing''] []"
  let ?e = "plain_email ''billing@vendor.com'' ''x''"
  have low: "lower (from_address ?e) = ''billing@vendor.com''" by code_simp
  have lb: "lower ''Billing'' = ''billing''" by code_simp
  have "\<exists>pre post. lower (from_address ?e) = pre @ lower ''Billing'' @ post"
  proof -
    have "lower (from_address ?e) = [] @ lower ''Billing'' @ ''@vendor.com''"
      using low lb by simp
    then show ?thesis by blast
  qed
  moreover have "\<not> (\<exists>rest. lower ''Billing'' = ''*@'' @ rest)"
    using lb by simp
  ultimately have b: "is_blocklisted ?sc ?e"
    using blocklist_is_substring_check [of re_literal "[]" "''/tmp''" "[''Billing'']" "[]" ?e ?sc env_ok "''r1''" "()"]
    by simp
  from b blocklist_is_substring_check [of re_literal "[]" "''/tmp''" "[''Billing'']" "[]" ?e ?sc env_ok "''r1''" "()"]
  show ?thesis by simp
qed

text \<open>
  Claim C9 as stated reads the domain rule as a match of the address's domain by
  suffix. The code looks for \<open>@domain\<close> as a substring instead: with the blocked
  domain \<open>spam.com\<close> the sender \<open>user@spam.com.evil.org\<close> is blocked although its domain
  does not end with the blocked one, and \<open>user@mail.spam.com\<close> is not blocked although
  its domain does.
\<close>

theorem blocklist_domain_suffix_counterexample:
  "is_blocklisted (email_scanner re_literal [] ''/tmp'' [] [''spam.com''])
       (plain_email ''user@spam.com.evil.org'' ''x'')
   \<and> \<not> claimed_domain_suffix_match ''user@spam.com.evil.org'' ''spam.com''
   \<and> \<not> is_blocklisted (email_scanner re_literal [] ''/tmp'' [] [''spam.com''])
         (plain_email ''user@mail.spam.com'' ''x'')
   \<and> claimed_domain_suffix_match ''user@mail.spam.com'' ''spam.com''"
  by code_simp

section \<open>Asset extraction\<close>

lemma extract_attachments_types:
  "\<forall>a\<in>set (fst (extract_attachments env mid dir atts w)). asset_type a = Attachment_asset"
  by (induction atts arbitrary: w)
     (auto simp: split_beta attachment_asset_def split: sum.splits)

lemma extract_attachments_filenames:
  "map filename (fst (extract_attachments env mid dir atts w))
     = map (\<lambda>att. Some (att_filename att)) (filter is_data_file atts)"
  by (induction atts arbitrary: w)
     (auto simp: split_beta attachment_asset_def split: sum.splits)

lemma extract_attachments_append:
  "extract_attachments env mid dir (xs @ ys) w =
     (let (A, w1) = extract_attachments env mid dir xs w;
          (B, w2) = extract_attachments env mid dir ys w1
      in (A @ B, w2))"
  by (induction xs arbitrary: w) (auto simp: split_beta)

lemma links_of_table_types:
  "\<forall>l\<in>set (concat (map (\<lambda>(ltype, pattern).
                    case rx_search pattern body of
                      None \<Rightarrow> []
                    | Some u \<Rightarrow> [link_asset mid ltype u]) table)). asset_type l = Link_asset"
  by (induction table) (auto simp: link_asset_def split: option.splits)

lemma links_of_table_order:
  "map link_type (concat (map (\<lambda>(ltype, pattern).
                    case rx_search pattern body of
                      None \<Rightarrow> []
                    | Some u \<Rightarrow> [link_asset mid ltype u]) table))
     = map (\<lambda>(ltype, pattern). Some ltype)
         (filter (\<lambda>(ltype, pattern). rx_matches pattern body) table)"
  by (induction table) (auto simp: link_asset_def rx_matches_def split: option.splits)

lemma link_types_distinct: "distinct (map fst LINK_PATTERNS)"
  by (simp add: LINK_PATTERNS_def)

lemma extract_links_distinct: "distinct (map link_type (extract_links mid body))"
proof -
  have eq: "(\<lambda>(ltype, pattern). Some ltype) = Some \<circ> (fst :: string \<times> rx \<Rightarrow> string)"
    by (auto simp: fun_eq_iff)
  have "distinct (map fst (filter (\<lambda>(ltype, pattern). rx_matches pattern body) LINK_PATTERNS))"
    using link_types_distinct by (rule distinct_map_filter)
  then have "distinct (map (Some \<circ> fst)
      (filter (\<lambda>(ltype, pattern). rx_matches pattern body) LINK_PATTERNS))"
    by (auto simp: distinct_map inj_on_def)
  then show ?thesis
    by (simp add: extract_links_def links_of_table_order eq)
qed

text \<open>
  Claim C6. For every message the sequence that \<open>extract_assets\<close> returns is a run
  of attachment assets followed by a run of link assets. The attachment assets are
  those of the message's attachments with a recognized data-file extension, in the
  message's order. The link assets are those of the link types whose pattern is found
  in the body, in the order of the table of link patterns, one asset at most for each
  link type.
\<close>

theorem extract_assets_order:
  "\<exists>A L. fst (extract_assets env sc e run w) = A @ L
     \<and> (\<forall>a\<in>set A. asset_type a = Attachment_asset)
     \<and> (\<forall>l\<in>set L. asset_type l = Link_asset)
     \<and> map filename A = map (\<lambda>att. Some (att_filename att)) (filter is_data_file (attachments e))
     \<and> map link_type L
         = map (\<lambda>(ltype, pattern). Some ltype)
             (filter (\<lambda>(ltype, pattern). rx_matches pattern (body_of e)) LINK_PATTERNS)
     \<and> distinct (map link_type L)"
proof -
  let ?A = "fst (extract_attachments env (message_id e) (extraction_dir sc @ ''/'' @ run)
                   (attachments e) w)"
  let ?L = "extract_links (message_id e) (body_of e)"
  have "fst (extract_assets env sc e run w) = ?A @ ?L"
    by (simp add: extract_assets_def split_beta Let_def)
  moreover have "\<forall>a\<in>set ?A. asset_type a = Attachment_asset"
    by (rule extract_attachments_types)
  moreover have "\<forall>l\<in>set ?L. asset_type l = Link_asset"
    unfolding extract_links_def by (rule links_of_table_types)
  moreover have "map filename ?A
      = map (\<lambda>att. Some (att_filename att)) (filter is_data_file (attachments e))"
    by (rule extract_attachments_filenames)
  moreover have "map link_type ?L
      = map (\<lambda>(ltype, pattern). Some ltype)
          (filter (\<lambda>(ltype, pattern). rx_matches pattern (body_of e)) LINK_PATTERNS)"
    unfolding extract_links_def by (rule links_of_table_order)
  moreover have "distinct (map link_type ?L)"
    by (rule extract_links_distinct)
  ultimately show ?thesis by blast
qed


theorem extract_assets_order_witness:
  "map asset_type (fst (extract_assets env_ok plain_scanner mixed_email ''r1'' ()))
     = [Attachment_asset, Attachment_asset, Link_asset, Link_asset]
   \<and> take 2 (map filename (fst (extract_assets env_ok plain_scanner mixed_email ''r1'' ())))
       = [Some ''b.csv'', Some ''a.xlsx'']
   \<and> drop 2 (map link_type (fst (extract_assets env_ok plain_scanner mixed_email ''r1'' ())))
       = [Some ''google_sheets'', Some ''dropbox'']"
proof -
  obtain A L where
    res: "fst (extract_assets env_ok plain_scanner mixed_email ''r1'' ()) = A @ L"
    and tA: "\<forall>a\<in>set A. asset_type a = Attachment_asset"
    and tL: "\<forall>l\<in>set L. asset_type l = Link_asset"
    and fA: "map filename A
             = map (\<lambda>att. Some (att_filename att)) (filter is_data_file (attachments mixed_email))"
    and lL: "map link_type L
             = map (\<lambda>(ltype, pattern). Some ltype)
                 (filter (\<lambda>(ltype, pattern). rx_matches pattern (body_of mixed_email)) LINK_PATTERNS)"
    using extract_assets_order [of env_ok plain_scanner mixed_email "''r1''" "()"] by blast
  have f: "map (\<lambda>att. Some (att_filename att)) (filter is_data_file (attachments mixed_email))
           = [Some ''b.csv'', Some ''a.xlsx'']"
    by code_simp
  have l: "map (\<lambda>(ltype, pattern). Some ltype)
             (filter (\<lambda>(ltype, pattern). rx_matches pattern (body_of mixed_email)) LINK_PATTERNS)
           = [Some ''google_sheets'', Some ''dropbox'']"
    by code_simp
  from fA f have lenA: "length A = 2" by (metis length_map length_Cons list.size(3) numeral_2_eq_2)
  from lL l have lenL: "length L = 2" by (metis length_map length_Cons list.size(3) numeral_2_eq_2)
  have mA: "map asset_type A = replicate (length A) Attachment_asset"
    using tA by (simp add: map_replicate_const [symmetric] cong: map_cong)
  have mL: "map asset_type L = replicate (length L) Link_asset"
    using tL by (simp add: map_replicate_const [symmetric] cong: map_cong)
  have "map asset_type (A @ L) = [Attachment_asset, Attachment_asset, Link_asset, Link_asset]"
    using mA mL lenA lenL by (simp add: numeral_2_eq_2)
  moreover have "take 2 (map filename (A @ L)) = [Some ''b.csv'', Some ''a.xlsx'']"
    using fA f lenA by simp
  moreover have "drop 2 (map link_type (A @ L)) = [Some ''google_sheets'', Some ''dropbox'']"
    using lL l lenA by simp
  ultimately show ?thesis using res by simp
qed

text \<open>
  Claim C7, as the code has it. For an attachment with a recognized data-file
  extension, \<open>extract_assets\<close> returns an asset at the attachment's place among the
  assets, whatever the download and the header read do. When the download succeeds,
  the asset keeps file name, mime type, size and path, and its error field is empty;
  when the header read raises, the exception is swallowed: the column list is empty
  and the error field stays empty. When the download raises, the asset carries the
  exception's text in its error field and the file name, and nothing else.
\<close>

theorem extraction_failures_stay_in_the_asset:
  assumes "attachments e = pre @ att # post"
    and "is_data_file att"
    and "extract_attachments env (message_id e) (extraction_dir sc @ ''/'' @ run) pre w = (A, w1)"
    and "save_attachment env (message_id e) att (extraction_dir sc @ ''/'' @ run) w1 = (saved, w2)"
  shows "\<exists>a B. fst (extract_assets env sc e run w) = A @ a # B
           \<and> asset_type a = Attachment_asset
           \<and> filename a = Some (att_filename att)
           \<and> (\<forall>err. saved = Inl err \<longrightarrow>
                 error a = Some err \<and> file_path a = None \<and> mime_type a = None
                 \<and> size_bytes a = None \<and> columns a = None)
           \<and> (\<forall>fp. saved = Inr fp \<longrightarrow>
                 error a = None \<and> file_path a = Some fp
                 \<and> mime_type a = Some (att_mime_type att)
                 \<and> size_bytes a = Some (att_size att)
                 \<and> ((\<exists>msg. read_header env fp w2 = Inl msg) \<longrightarrow> columns a = None))"
proof -
  let ?dir = "extraction_dir sc @ ''/'' @ run"
  let ?a = "attachment_asset env (message_id e) att saved w2"
  let ?rest = "fst (extract_attachments env (message_id e) ?dir post w2)"
  have "fst (extract_attachments env (message_id e) ?dir (pre @ att # post) w) = A @ ?a # ?rest"
    using assms(2,3,4) by (simp add: extract_attachments_append split_beta)
  then have "fst (extract_assets env sc e run w)
             = A @ ?a # (?rest @ extract_links (message_id e) (body_of e))"
    using assms(1) by (simp add: extract_assets_def split_beta Let_def)
  moreover have "asset_type ?a = Attachment_asset \<and> filename ?a = Some (att_filename att)"
    by (simp add: attachment_asset_def split: sum.split)
  moreover have "\<forall>err. saved = Inl err \<longrightarrow>
                 error ?a = Some err \<and> file_path ?a = None \<and> mime_type ?a = None
                 \<and> size_bytes ?a = None \<and> columns ?a = None"
    by (simp add: attachment_asset_def)
  moreover have "\<forall>fp. saved = Inr fp \<longrightarrow>
                 error ?a = None \<and> file_path ?a = Some fp
                 \<and> mime_type ?a = Some (att_mime_type att)
                 \<and> size_bytes ?a = Some (att_size att)
                 \<and> ((\<exists>msg. read_header env fp w2 = Inl msg) \<longrightarrow> columns ?a = None)"
    by (auto simp: attachment_asset_def extract_columns_def)
  ultimately show ?thesis by blast
qed

text \<open>
  Claim C7 as stated has the error field populated when the header read fails. In
  the environment whose header read raises, the asset of \<open>a.csv\<close> is returned with its
  path and with an empty error field.
\<close>

theorem probe_failure_leaves_error_empty_counterexample:
  "read_header env_probe_fails ''/tmp/r1/a.csv'' () = Inl ''not a table''
   \<and> map file_path (fst (extract_assets env_probe_fails plain_scanner
                           (data_email ''x'' None [file_named ''a.csv'']) ''r1'' ()))
       = [Some ''/tmp/r1/a.csv'']
   \<and> map error (fst (extract_assets env_probe_fails plain_scanner
                        (data_email ''x'' None [file_named ''a.csv'']) ''r1'' ()))
       = [None]"
  by code_simp


theorem extraction_failures_stay_in_the_asset_witness:
  "(\<exists>a B. fst (extract_assets env_probe_fails plain_scanner
                   (data_email ''x'' None [file_named ''a.csv'']) ''r1'' ()) = a # B
       \<and> filename a = Some ''a.csv'' \<and> mime_type a = Some ''text/csv''
       \<and> size_bytes a = Some 120 \<and> columns a = None \<and> error a = None)
   \<and> (\<exists>a B. fst (extract_assets env_download_fails plain_scanner
                     (data_email ''x'' None [file_named ''a.csv'']) ''r1'' ()) = a # B
         \<and> filename a = Some ''a.csv'' \<and> mime_type a = None \<and> error a = Some ''timed out'')"
proof -
  let ?e = "data_email ''x'' None [file_named ''a.csv'']"
  let ?att = "file_named ''a.csv''"
  let ?dir = "extraction_dir plain_scanner @ ''/'' @ ''r1''"
  have atts: "attachments ?e = [] @ ?att # []" by (simp add: data_email_def)
  have data: "is_data_file ?att" by code_simp
  have meta: "att_filename ?att = ''a.csv'' \<and> att_mime_type ?att = ''text/csv'' \<and> att_size ?att = 120"
    by (simp add: file_named_def)
  have pre1: "extract_attachments env_probe_fails (message_id ?e) ?dir [] () = ([], ())" by simp
  have save1: "save_attachment env_probe_fails (message_id ?e) ?att ?dir ()
               = (Inr ''/tmp/r1/a.csv'', ())"
    by code_simp
  have probe: "read_header env_probe_fails ''/tmp/r1/a.csv'' () = Inl ''not a table''"
    by code_simp
  have pre2: "extract_attachments env_download_fails (message_id ?e) ?dir [] () = ([], ())" by simp
  have save2: "save_attachment env_download_fails (message_id ?e) ?att ?dir ()
               = (Inl ''timed out'', ())"
    by code_simp
  have one: "\<exists>a B. fst (extract_assets env_probe_fails plain_scanner ?e ''r1'' ()) = a # B
       \<and> filename a = Some ''a.csv'' \<and> mime_type a = Some ''text/csv''
       \<and> size_bytes a = Some 120 \<and> columns a = None \<and> error a = None"
    using extraction_failures_stay_in_the_asset [OF atts data pre1 save1] probe meta
    by (auto simp del: extract_attachments.simps)
  have two: "\<exists>a B. fst (extract_assets env_download_fails plain_scanner ?e ''r1'' ()) = a # B
       \<and> filename a = Some ''a.csv'' \<and> mime_type a = None \<and> error a = Some ''timed out''"
    using extraction_failures_stay_in_the_asset [OF atts data pre2 save2] meta
    by (auto simp del: extract_attachments.simps)
  from one two show ?thesis by blast
qed

section \<open>The run\<close>

subsection \<open>The loop, once it is entered\<close>

text \<open>
  One turn of the loop counts the message and adds one entry to the error list when
  the pipeline raised, one payload or one review item when it returned with that
  route, and nothing otherwise.
\<close>

lemma scan_step_fields:
  "emails_scanned (fst (scan_step pipeline run (res, w) e)) = emails_scanned res + 1
   \<and> errors (fst (scan_step pipeline run (res, w) e))
       = errors res @ error_entry e (fst (pipeline e run w))
   \<and> auto_processed (fst (scan_step pipeline run (res, w) e))
       = auto_processed res @ auto_entry run (fst (pipeline e run w))
   \<and> review_queue (fst (scan_step pipeline run (res, w) e))
       = review_queue res @ review_entry run (fst (pipeline e run w))
   \<and> snd (scan_step pipeline run (res, w) e) = snd (pipeline e run w)"
  by (cases "fst (pipeline e run w)")
     (simp_all add: scan_step_def split_beta Let_def error_entry_def auto_entry_def
        review_entry_def resolve_def)

lemma one_end_each:
  "length (error_entry e outcome) + length (auto_entry run outcome)
     + length (review_entry run outcome) + (if resolve outcome = Skipped then 1 else 0) = 1"
  by (cases outcome) (simp_all add: error_entry_def auto_entry_def review_entry_def resolve_def)

text \<open>
  When the loop runs to its end, the summary holds exactly the entries of the messages
  that the generator yielded, in their order: a message on which the pipeline raised
  is in the error list under its id, and the messages after it are processed all the
  same.
\<close>

lemma scan_loop_fields:
  "scan_loop client pipeline run msg_refs res w = (Inr res', w') \<Longrightarrow>
   emails_scanned res'
     = emails_scanned res + length (processed client pipeline run msg_refs w)
   \<and> errors res'
       = errors res @ concat (map (\<lambda>(e, outcome). error_entry e outcome)
                               (processed client pipeline run msg_refs w))
   \<and> auto_processed res'
       = auto_processed res @ concat (map (\<lambda>(e, outcome). auto_entry run outcome)
                                       (processed client pipeline run msg_refs w))
   \<and> review_queue res'
       = review_queue res @ concat (map (\<lambda>(e, outcome). review_entry run outcome)
                                     (processed client pipeline run msg_refs w))"
proof (induction msg_refs arbitrary: res w)
  case Nil
  then show ?case by simp
next
  case (Cons msg_ref msg_refs)
  obtain fetched w1 where f: "fetch_message_details client msg_ref w = (fetched, w1)"
    by (cases "fetch_message_details client msg_ref w") auto
  show ?case
  proof (cases fetched)
    case (Inl failure)
    then show ?thesis using Cons f by (cases failure) auto
  next
    case (Inr e)
    let ?s = "scan_step pipeline run (res, w1) e"
    have loop: "scan_loop client pipeline run msg_refs (fst ?s) (snd ?s) = (Inr res', w')"
      using Cons.prems f Inr by simp
    have w2: "snd ?s = snd (pipeline e run w1)"
      using scan_step_fields [of pipeline run res w1 e] by simp
    show ?thesis
      using Cons.IH [OF loop] scan_step_fields [of pipeline run res w1 e] f Inr w2
      by simp
  qed
qed

lemma ends_add_up:
  "length (concat (map (\<lambda>(e, outcome). error_entry e outcome) ps))
     + length (concat (map (\<lambda>(e, outcome). auto_entry run outcome) ps))
     + length (concat (map (\<lambda>(e, outcome). review_entry run outcome) ps))
     + length (filter (\<lambda>(e, outcome). resolve outcome = Skipped) ps) = length ps"
proof (induction ps)
  case Nil
  then show ?case by simp
next
  case (Cons p ps)
  obtain e outcome where p: "p = (e, outcome)" by (cases p) auto
  show ?case using Cons one_end_each [of e outcome run] by (simp add: p split: if_splits)
qed

lemma scan_loop_counts:
  assumes "scan_loop client pipeline run msg_refs (new_run run) w = (Inr res, w')"
  shows "emails_scanned res = length (processed client pipeline run msg_refs w)
         \<and> length (errors res) + length (auto_processed res) + length (review_queue res)
             + length (filter (\<lambda>(e, outcome). resolve outcome = Skipped)
                        (processed client pipeline run msg_refs w))
           = emails_scanned res"
  using scan_loop_fields [OF assms]
    ends_add_up [of "processed client pipeline run msg_refs w" run]
  by (simp add: new_run_def)

text \<open>
  The loop ends without a summary only when a fetch raised something other than
  \<open>HttpError\<close>: no outcome of the pipeline ends it. When no fetch does, it returns.
\<close>

lemma scan_loop_failure:
  "scan_loop client pipeline run msg_refs res w = (Inl failure, w') \<Longrightarrow>
   \<exists>msg_ref \<in> set msg_refs. \<exists>w0 err.
      fetch_message_details client msg_ref w0 = (Inl (Other_error err), w')
      \<and> failure = Fetch_failure err"
proof (induction msg_refs arbitrary: res w)
  case Nil
  then show ?case by simp
next
  case (Cons msg_ref msg_refs)
  obtain fetched w1 where f: "fetch_message_details client msg_ref w = (fetched, w1)"
    by (cases "fetch_message_details client msg_ref w") auto
  show ?case
  proof (cases fetched)
    case (Inl fe)
    then show ?thesis using Cons f by (cases fe) auto
  next
    case (Inr e)
    then show ?thesis using Cons f by auto
  qed
qed

lemma scan_loop_returns:
  assumes ok: "\<forall>msg_ref w0 err w1.
                 fetch_message_details client msg_ref w0 \<noteq> (Inl (Other_error err), w1)"
  shows "\<exists>res' w'. scan_loop client pipeline run msg_refs res w = (Inr res', w')"
proof (induction msg_refs arbitrary: res w)
  case Nil
  then show ?case by simp
next
  case (Cons msg_ref msg_refs)
  obtain fetched w1 where f: "fetch_message_details client msg_ref w = (fetched, w1)"
    by (cases "fetch_message_details client msg_ref w") auto
  show ?case
  proof (cases fetched)
    case (Inl fe)
    show ?thesis
    proof (cases fe)
      case (HttpError err)
      then show ?thesis using Cons.IH [of res w1] f Inl by simp
    next
      case (Other_error err)
      then show ?thesis using ok f Inl by simp
    qed
  next
    case (Inr e)
    then show ?thesis using Cons.IH f by simp
  qed
qed

subsection \<open>The call that precedes the loop\<close>

text \<open>
  A client whose \<open>fetch_emails\<close> takes the four keywords of the call, and whose listing
  returns, brings \<open>scan\<close> into the loop with a fresh summary.
\<close>

lemma scan_enters_the_loop:
  assumes "set scan_keywords \<subseteq> set (fetch_emails_params client)"
    and "list_message_ids client
           (if truthy query then the query else build_query since None True None) w
         = (Inr msg_refs, w1)"
  shows "scan client env sc run since query max_results w
         = scan_loop client (scan_pipeline env sc) run (list_prefix max_results msg_refs)
             (new_run run) w1"
proof -
  have "unexpected_keyword (fetch_emails_params client) scan_keywords = None"
    using assms(1) by (auto simp: unexpected_keyword_def find_None_iff)
  then show ?thesis using assms(2) by (simp add: scan_def)
qed

text \<open>
  \<open>GmailClient.fetch_emails\<close> has no parameter \<open>labels\<close>: with a client of that class
  the call raises, in every world and whatever the mailbox holds, and \<open>scan\<close> ends
  there.
\<close>

lemma GmailClient_rejects_labels:
  "scan (GmailClient list_ids details) env sc run since query max_results w
     = (Inl (TypeError ''labels''), w)"
  by (simp add: scan_def GmailClient_def GmailClient_fetch_emails_params_def
      scan_keywords_def unexpected_keyword_def)


text \<open>
  On the same mailbox behind a client that takes \<open>labels\<close>, the loop isolates the
  failure of the pipeline on the second message; and when the fetch of the second
  message times out, \<open>scan\<close> ends with that exception and the third message is never
  reached.
\<close>

lemma labels_client_run:
  "(case fst (scan_loop labels_client flaky_pipeline ''r1'' [''m1'', ''m2'', ''m3'']
               (new_run ''r1'') ()) of
      Inl failure \<Rightarrow> False
    | Inr res \<Rightarrow> emails_scanned res = 3 \<and> errors res = [(''m2'', ''failure'')]
        \<and> auto_processed res = [] \<and> length (review_queue res) = 1)"
  by code_simp

lemma timeout_client_run:
  "scan timeout_client env_ok plain_scanner ''r1'' None None 100 ()
     = (Inl (Fetch_failure ''timed out''), ())"
  by code_simp

section \<open>Routing\<close>

lemma route_of_cases:
  "route_of sc cl partner conf = ''auto_process'' \<or> route_of sc cl partner conf = ''review''
   \<or> route_of sc cl partner conf = ''skip''"
  by (simp add: route_of_def split: option.split)

lemma route_of_auto:
  "route_of sc cl partner conf = ''auto_process'' \<longleftrightarrow>
     (\<exists>name p. partner = Some name \<and> name \<noteq> []
        \<and> find (\<lambda>p. partner_name p = name) (patterns sc) = Some p
        \<and> auto_process p \<and> confidence_threshold p \<le> conf)"
  by (cases partner) (auto simp: route_of_def truthy_def split: option.split)

lemma route_of_skip:
  "classification cl \<noteq> NOT_DATA \<Longrightarrow> route_of sc cl partner conf \<noteq> ''skip''"
  by (simp add: route_of_def split: option.split)

lemma scan_email_skips:
  "is_blocklisted sc e \<or> classification (classify e) = NOT_DATA \<Longrightarrow>
   route_action (fst (scan_email env sc e run w)) = ''skip''
   \<and> matched_partner (fst (scan_email env sc e run w)) = None"
  by (auto simp: scan_email_def Let_def)

lemma scan_email_routes:
  "\<not> is_blocklisted sc e \<Longrightarrow> classification (classify e) \<noteq> NOT_DATA \<Longrightarrow>
   extract_assets env sc e run w = (assets, w1) \<Longrightarrow>
   match (matcher sc) e assets = (partner, conf, mf) \<Longrightarrow>
   route_action (fst (scan_email env sc e run w)) = route_of sc (classify e) partner conf
   \<and> matched_partner (fst (scan_email env sc e run w)) = partner
   \<and> pattern_match_confidence (fst (scan_email env sc e run w)) = conf"
  by (simp add: scan_email_def Let_def)

text \<open>
  Claim C1, as the code has it. For every scanned message: the route is \<open>skip\<close>
  exactly when the sender is blocklisted or the classifier answers not-data; the
  route is \<open>auto_process\<close> exactly when the matcher returned a partner name that is not
  empty, the first catalog entry with that name has its \<open>auto_process\<close> flag set, and
  the match confidence is at least that entry's threshold; in every other case the
  route is \<open>review\<close>.
\<close>

theorem route_rule:
  assumes "scan_email env sc e run w = (r, w')"
  shows "(route_action r = ''skip'' \<longleftrightarrow>
            is_blocklisted sc e \<or> classification (classify e) = NOT_DATA)
         \<and> (route_action r = ''auto_process'' \<longleftrightarrow>
              (\<exists>name p. matched_partner r = Some name \<and> name \<noteq> []
                 \<and> find (\<lambda>p. partner_name p = name) (patterns sc) = Some p
                 \<and> auto_process p
                 \<and> confidence_threshold p \<le> pattern_match_confidence r))
         \<and> (route_action r \<noteq> ''skip'' \<and> route_action r \<noteq> ''auto_process''
              \<longrightarrow> route_action r = ''review'')"
proof (cases "is_blocklisted sc e \<or> classification (classify e) = NOT_DATA")
  case True
  then have "route_action r = ''skip'' \<and> matched_partner r = None"
    using assms scan_email_skips [of sc e env run w] by simp
  then show ?thesis using True by simp
next
  case False
  obtain assets w1 where ex: "extract_assets env sc e run w = (assets, w1)"
    by (cases "extract_assets env sc e run w") auto
  obtain partner conf mf where m: "match (matcher sc) e assets = (partner, conf, mf)"
    by (cases "match (matcher sc) e assets") auto
  have r: "route_action r = route_of sc (classify e) partner conf
           \<and> matched_partner r = partner \<and> pattern_match_confidence r = conf"
    using assms False scan_email_routes [OF _ _ ex m] by simp
  have ns: "route_of sc (classify e) partner conf \<noteq> ''skip''"
    using False by (simp add: route_of_skip)
  show ?thesis
    using r ns False route_of_auto [of sc "classify e" partner conf]
      route_of_cases [of sc "classify e" partner conf]
    by auto
qed

theorem route_rule_witness:
  "route_action (fst (scan_email env_ok acme_scanner csv_email ''r1'' ())) = ''auto_process''
   \<and> route_action (fst (scan_email env_ok strict_scanner csv_email ''r1'' ())) = ''review''
   \<and> route_action (fst (scan_email env_ok acme_scanner (data_email ''x'' None []) ''r1'' ())) = ''skip''"
proof -
  let ?a = "scan_email env_ok acme_scanner csv_email ''r1'' ()"
  let ?s = "scan_email env_ok strict_scanner csv_email ''r1'' ()"
  let ?n = "scan_email env_ok acme_scanner (data_email ''x'' None []) ''r1'' ()"
  have pa: "?a = (fst ?a, snd ?a)" by (rule surjective_pairing)
  have ps: "?s = (fst ?s, snd ?s)" by (rule surjective_pairing)
  have pn: "?n = (fst ?n, snd ?n)" by (rule surjective_pairing)
  have cls: "classification (classify csv_email) = UNCERTAIN" by code_simp
  have a1: "matched_partner (fst ?a) = Some ''Acme'' \<and> pattern_match_confidence (fst ?a) = 3/10"
    by code_simp
  have a2: "find (\<lambda>p. partner_name p = ''Acme'') (patterns acme_scanner)
            = Some (partner_entry ''Acme'' True (1/5))"
    by (simp add: acme_scanner_def email_scanner_def partner_entry_def)
  have a3: "auto_process (partner_entry ''Acme'' True (1/5))
            \<and> confidence_threshold (partner_entry ''Acme'' True (1/5)) = 1/5"
    by (simp add: partner_entry_def)
  have auto: "route_action (fst ?a) = ''auto_process''"
    using route_rule [OF pa] a1 a2 a3 by simp
  have s0: "\<not> is_blocklisted strict_scanner csv_email" by code_simp
  have s1: "matched_partner (fst ?s) = Some ''Acme'' \<and> pattern_match_confidence (fst ?s) = 3/10"
    by code_simp
  have s2: "find (\<lambda>p. partner_name p = ''Acme'') (patterns strict_scanner)
            = Some (partner_entry ''Acme'' True (4/5))"
    by (simp add: strict_scanner_def email_scanner_def partner_entry_def)
  have s3: "confidence_threshold (partner_entry ''Acme'' True (4/5)) = 4/5"
    by (simp add: partner_entry_def)
  have review: "route_action (fst ?s) = ''review''"
    using route_rule [OF ps] cls s0 s1 s2 s3 by simp
  have n1: "classification (classify (data_email ''x'' None [])) = NOT_DATA" by code_simp
  have skip: "route_action (fst ?n) = ''skip''"
    using route_rule [OF pn] n1 by simp
  from auto review skip show ?thesis by simp
qed

text \<open>
  Claim C1 as stated asks only that the matcher returned a partner. The router tests
  the returned name with \<open>if partner:\<close>, which an empty name fails: with a catalog
  entry whose name is empty, the matcher returns that name with confidence 0.30, the
  entry's flag is set and its threshold 0.20 is met, and the route is \<open>review\<close>.
\<close>

theorem empty_partner_name_counterexample:
  "matched_partner (fst (scan_email env_ok unnamed_scanner csv_email ''r1'' ())) = Some []
   \<and> pattern_match_confidence (fst (scan_email env_ok unnamed_scanner csv_email ''r1'' ())) = 3/10
   \<and> patterns unnamed_scanner = [partner_entry [] True (1/5)]
   \<and> auto_process (partner_entry [] True (1/5))
   \<and> confidence_threshold (partner_entry [] True (1/5)) \<le> 3/10
   \<and> route_action (fst (scan_email env_ok unnamed_scanner csv_email ''r1'' ())) = ''review''"
  by code_simp

section \<open>Scenario A\<close>

lemma weekly_subject_score:
  "fst (analyze_subject ''Weekly Performance Report - Jan 2026'') = 9/20"
  by code_simp

lemma weekly_subject_not_skipped:
  "\<not> list_ex (\<lambda>pattern. rx_matches pattern ''Weekly Performance Report - Jan 2026'')
       SKIP_SUBJECT_PATTERNS"
  by code_simp

lemma weekly_subject_no_penalty:
  "\<not> is_reply_forward ''Weekly Performance Report - Jan 2026''"
  by code_simp

lemma xlsx_weight: "map_of DATA_EXTENSIONS (lower (path_suffix ''report.xlsx'')) = Some (3/10)"
  by code_simp

lemma analyze_links_nonneg: "0 \<le> fst (analyze_links b)"
  by (simp add: analyze_links_def split: option.split prod.split)

lemma first_phrase: "''please find attached'' \<in> set DELIVERY_PHRASES"
  by (simp add: DELIVERY_PHRASES_def)

lemma first_metric: "METRIC_PATTERNS ! 0 \<in> set METRIC_PATTERNS"
  by (simp add: METRIC_PATTERNS_def)

lemma analyze_body_delivery_metric:
  assumes "str_in ''please find attached'' (lower b)"
    and "rx_matches (METRIC_PATTERNS ! 0) b"
  shows "1/4 \<le> fst (analyze_body b)"
proof -
  define n where "n = length (filter (\<lambda>r. rx_matches r b) METRIC_PATTERNS)"
  have "find (\<lambda>phrase. str_in phrase (lower b)) DELIVERY_PHRASES \<noteq> None"
    using assms(1) first_phrase by (auto simp: find_None_iff)
  then obtain ph where ph: "find (\<lambda>phrase. str_in phrase (lower b)) DELIVERY_PHRASES = Some ph"
    by auto
  have "METRIC_PATTERNS ! 0 \<in> set (filter (\<lambda>r. rx_matches r b) METRIC_PATTERNS)"
    using assms(2) first_metric by simp
  then have pos: "0 < n"
    unfolding n_def by (rule length_pos_if_in_set)
  then have "1 \<le> n" by linarith
  then have "(of_nat 1 :: rat) \<le> of_nat n" by (rule of_nat_mono)
  then have m: "(1/20 :: rat) \<le> min (3/20) (of_nat n * (1/20))" by simp
  have "fst (analyze_body b) = 1/5 + min (3/20) (of_nat n * (1/20))"
    using ph pos by (simp add: analyze_body_def Let_def n_def [symmetric])
  then show ?thesis using m by linarith
qed

lemma weekly_report_scores_one:
  assumes "subject e = ''Weekly Performance Report - Jan 2026''"
    and "attachments e = [att]"
    and "att_filename att = ''report.xlsx''"
    and "str_in ''please find attached'' (lower (body_of e))"
    and "rx_matches (METRIC_PATTERNS ! 0) (body_of e)"
  shows "score (classify e) = 1 \<and> classification (classify e) = DATA_HIGH_CONFIDENCE"
proof -
  have weight: "map_of DATA_EXTENSIONS (data_ext att) = Some (3/10)"
    using assms(3) xlsx_weight by (simp add: data_ext_def)
  have "find (\<lambda>a. map_of DATA_EXTENSIONS (data_ext a) \<noteq> None) [att] = Some att"
    using weight by (simp del: not_None_eq)
  then have att: "fst (analyze_attachments (attachments e)) = 3/10"
    by (simp add: analyze_attachments_def assms(2) weight del: not_None_eq)
  have body: "1/4 \<le> fst (analyze_body (body_of e))"
    using assms(4,5) by (rule analyze_body_delivery_metric)
  have raw: "1 \<le> fst (raw_score e)"
    using att body analyze_links_nonneg [of "body_of e"] weekly_subject_score
      weekly_subject_no_penalty assms(1)
    by (simp add: raw_score_def split_beta Let_def)
  then have "max 0 (min 1 (fst (raw_score e))) = 1" by simp
  then show ?thesis
    using weekly_subject_not_skipped assms(1)
    by (simp add: classify_def split_beta Let_def bucket_def)
qed

lemma scenario_a_facts:
  "subject scenario_a = ''Weekly Performance Report - Jan 2026''
   \<and> attachments scenario_a = [file_named ''report.xlsx'']
   \<and> att_filename (file_named ''report.xlsx'') = ''report.xlsx''"
  by (simp add: scenario_a_def file_named_def)

lemma scenario_a_body:
  "str_in ''please find attached'' (lower (body_of scenario_a))
   \<and> rx_matches (METRIC_PATTERNS ! 0) (body_of scenario_a)"
  by code_simp

text \<open>
  Claim C4, as the code has it. A message with the subject
  \<open>Weekly Performance Report - Jan 2026\<close>, a body that contains
  \<open>please find attached\<close> and mentions impressions, and the one attachment
  \<open>report.xlsx\<close>: the subject scores 0.30 for the high-confidence pattern and
  0.15 more for the month-and-year pattern of the medium table, which \<open>Jan 2026\<close>
  matches; with the body (0.20 + 0.05 at least) and the attachment (0.30) the sum
  reaches 1.00, the clamped score is 1.00, and the classification is high-confidence
  data.
\<close>

theorem weekly_report_is_high_confidence:
  assumes "subject e = ''Weekly Performance Report - Jan 2026''"
    and "attachments e = [att]"
    and "att_filename att = ''report.xlsx''"
    and "str_in ''please find attached'' (lower (body_of e))"
    and "rx_matches (METRIC_PATTERNS ! 0) (body_of e)"
  shows "fst (analyze_subject (subject e)) = 3/10 + 3/20
         \<and> score (classify e) = 1
         \<and> classification (classify e) = DATA_HIGH_CONFIDENCE"
  using weekly_report_scores_one [OF assms] weekly_subject_score assms(1) by simp

theorem weekly_report_is_high_confidence_witness:
  "score (classify scenario_a) = 1 \<and> classification (classify scenario_a) = DATA_HIGH_CONFIDENCE"
  using weekly_report_is_high_confidence [of scenario_a "file_named ''report.xlsx''"]
    scenario_a_facts scenario_a_body
  by simp

text \<open>
  Claim C4 as stated gives the score 0.30 + 0.20 + 0.05 + 0.30 = 0.85. On the message
  of Scenario A the classifier returns 1.00: the sum of the claim leaves out the 0.15
  of the medium subject pattern.
\<close>

theorem scenario_a_score_counterexample:
  "score (classify scenario_a) = 1 \<and> score (classify scenario_a) \<noteq> 17/20"
  using weekly_report_scores_one [of scenario_a "file_named ''report.xlsx''"]
    scenario_a_facts scenario_a_body
  by simp

end
